(* ===== verification/Prelude.thy ===== *)
theory Prelude
  imports Complex_Main "HOL-Library.Sublist"
begin

text \<open>
  Shared vocabulary of the development: the Python values and primitives that
  \<^verbatim>\<open>src/main.py\<close> relies on, written as executable HOL.
  \<^item> Python exceptions the model distinguishes (\<open>py_exc\<close>);
  \<^item> numbers: a Python \<open>int\<close> or \<open>float\<close> is read as its exact rational value
    (\<open>rat\<close>), \<open>int(x)\<close> on a number truncates towards zero (\<open>py_trunc\<close>),
    truthiness and the \<open>or\<close> operator on optional numbers (\<open>py_truthy\<close>,
    \<open>py_or\<close>), where \<open>None\<close> stands for a missing dictionary key or a
    \<open>None\<close> value;
  \<^item> strings: \<open>str(n)\<close> on integers (\<open>nat_str\<close>, \<open>int_str\<close>) and
    \<open>int(s)\<close> on strings (\<open>py_int\<close>: surrounding whitespace stripped, an
    optional sign, ASCII decimal digits with single underscores between them;
    anything else raises \<open>ValueError\<close> naming the original text),
    \<open>str.strip()\<close> on the Latin-1 whitespace characters (\<open>py_strip\<close>);
  \<^item> POSIX paths as \<^verbatim>\<open>pathlib\<close> treats them: root and parts of a path
    text, \<open>str()\<close> of a path and the join \<^verbatim>\<open>p / q\<close> (\<open>path_div\<close>);
  \<^item> the collection \<open>pysem\<close> of evaluation rules for these primitives, used by
    the component theories with \<open>simp add: pysem\<close>.
\<close>

named_theorems pysem "evaluation rules of the Python primitives of the model"

section \<open>Exceptions\<close>

text \<open>
  \<open>DownloadError\<close> is \<^verbatim>\<open>yt_dlp.utils.DownloadError\<close>; \<open>OtherExc\<close> is any
  other exception raised by the library; \<open>AttributeError\<close> and
  \<open>ValueError\<close> are the builtins raised by a method call on \<open>None\<close> and by
  \<open>int()\<close> on a malformed string; \<open>ImportError\<close> is raised by a failing
  \<^verbatim>\<open>import\<close>, \<open>OSError\<close> by a failing file operation and \<open>TypeError\<close>
  by a Qt method called with an argument of the wrong type. The string is
  \<open>str(e)\<close>.
\<close>

datatype py_exc =
    DownloadError string
  | OtherExc string
  | AttributeError string
  | ValueError string
  | ImportError string
  | OSError string
  | TypeError string

definition exc_str :: "py_exc \<Rightarrow> string" where
  "exc_str e = (case e of DownloadError m \<Rightarrow> m | OtherExc m \<Rightarrow> m
                  | AttributeError m \<Rightarrow> m | ValueError m \<Rightarrow> m
                  | ImportError m \<Rightarrow> m | OSError m \<Rightarrow> m | TypeError m \<Rightarrow> m)"

section \<open>Numbers\<close>

definition py_trunc :: "rat \<Rightarrow> int" where
  "py_trunc x = (if 0 \<le> x then \<lfloor>x\<rfloor> else - \<lfloor>- x\<rfloor>)"

definition py_truthy :: "rat option \<Rightarrow> bool" where
  "py_truthy v = (case v of None \<Rightarrow> False | Some x \<Rightarrow> x \<noteq> 0)"

definition py_or :: "rat option \<Rightarrow> rat option \<Rightarrow> rat option" where
  "py_or a b = (if py_truthy a then a else b)"

definition py_num :: "rat option \<Rightarrow> rat" where
  "py_num v = (case v of None \<Rightarrow> 0 | Some x \<Rightarrow> x)"

section \<open>Strings\<close>

definition digit_char :: "nat \<Rightarrow> char" where
  "digit_char d = char_of (48 + d)"

fun nat_str :: "nat \<Rightarrow> string" where
  "nat_str n = (if n < 10 then [digit_char n] else nat_str (n div 10) @ [digit_char (n mod 10)])"

declare nat_str.simps [simp del]

definition int_str :: "int \<Rightarrow> string" where
  "int_str i = (if i < 0 then CHR ''-'' # nat_str (nat (- i)) else nat_str (nat i))"

definition is_digit :: "char \<Rightarrow> bool" where
  "is_digit c \<longleftrightarrow> (48::nat) \<le> of_char c \<and> of_char c \<le> (57::nat)"

fun digits_val :: "nat \<Rightarrow> string \<Rightarrow> nat" where
  "digits_val acc [] = acc"
| "digits_val acc (c # cs) = digits_val (10 * acc + (of_char c - 48)) cs"

text \<open>The digits \<^verbatim>\<open>int()\<close> accepts in base 10: digits, with single
  underscores between them.\<close>

definition digit_groups_ok :: "string \<Rightarrow> bool" where
  "digit_groups_ok s \<longleftrightarrow> s \<noteq> [] \<and> is_digit (hd s) \<and> is_digit (last s) \<and>
     list_all (\<lambda>c. is_digit c \<or> c = CHR ''_'') s \<and> \<not> sublist ''__'' s"

definition parse_nat :: "string \<Rightarrow> nat option" where
  "parse_nat s = (if digit_groups_ok s then Some (digits_val 0 (filter is_digit s)) else None)"

text \<open>\<open>repr\<close> of a string without quotes or backslashes in it.\<close>

definition py_repr :: "string \<Rightarrow> string" where
  "py_repr s = CHR 0x27 # s @ [CHR 0x27]"

text \<open>The characters \<^verbatim>\<open>str.strip()\<close> and \<^verbatim>\<open>int()\<close> treat as white space
  (those below 256: the model's characters are bytes).\<close>

definition is_space :: "char \<Rightarrow> bool" where
  "is_space c \<longleftrightarrow> c \<in> set [CHR '' '', CHR 0x09, CHR 0x0A, CHR 0x0B, CHR 0x0C, CHR 0x0D,
                              CHR 0x1C, CHR 0x1D, CHR 0x1E, CHR 0x1F, CHR 0x85, CHR 0xA0]"

definition py_strip :: "string \<Rightarrow> string" where
  "py_strip s = rev (dropWhile is_space (rev (dropWhile is_space s)))"

text \<open>\<^verbatim>\<open>int(s)\<close> on a string: surrounding white space is ignored, a sign is
  optional, and the error names the string as given.\<close>

definition py_int :: "string \<Rightarrow> py_exc + int" where
  "py_int s =
     (let t = py_strip s;
          (neg, ds) = (case t of c # cs \<Rightarrow>
                         if c = CHR ''-'' then (True, cs)
                         else if c = CHR ''+'' then (False, cs) else (False, t)
                       | [] \<Rightarrow> (False, []))
      in case parse_nat ds of
           None \<Rightarrow> Inl (ValueError (''invalid literal for int() with base 10: '' @ py_repr s))
         | Some n \<Rightarrow> Inr (if neg then - int n else int n))"

section \<open>Paths\<close>

text \<open>\<^verbatim>\<open>pathlib.PurePosixPath\<close>: a path is its root (\<^verbatim>\<open>/\<close>, or
  \<^verbatim>\<open>//\<close> when the text starts with exactly two slashes, or none) and its
  parts (the text split at \<^verbatim>\<open>/\<close>, empty parts and \<^verbatim>\<open>.\<close> dropped);
  \<^verbatim>\<open>str()\<close> joins them, giving \<^verbatim>\<open>.\<close> for the empty path; \<^verbatim>\<open>p / q\<close> is
  \<open>q\<close> when \<open>q\<close> is absolute and otherwise appends the parts of \<open>q\<close>.\<close>

fun split_on :: "char \<Rightarrow> string \<Rightarrow> string list" where
  "split_on c [] = [[]]"
| "split_on c (x # xs) =
     (if x = c then [] # split_on c xs
      else (case split_on c xs of p # ps \<Rightarrow> (x # p) # ps | [] \<Rightarrow> [[x]]))"

definition path_root :: "string \<Rightarrow> string" where
  "path_root s =
     (if take 2 s = ''//'' \<and> take 3 s \<noteq> ''///'' then ''//''
      else if take 1 s = ''/'' then ''/'' else [])"

definition path_parts :: "string \<Rightarrow> string list" where
  "path_parts s = filter (\<lambda>p. p \<noteq> [] \<and> p \<noteq> ''.'') (split_on (CHR ''/'') s)"

fun join_slash :: "string list \<Rightarrow> string" where
  "join_slash [] = []"
| "join_slash [p] = p"
| "join_slash (p # ps) = p @ ''/'' @ join_slash ps"

definition path_str :: "string \<Rightarrow> string list \<Rightarrow> string" where
  "path_str rt parts = (if rt = [] \<and> parts = [] then ''.'' else rt @ join_slash parts)"

definition path_div :: "string \<Rightarrow> string \<Rightarrow> string" where
  "path_div a b =
     (if path_root b \<noteq> [] then path_str (path_root b) (path_parts b)
      else path_str (path_root a) (path_parts a @ path_parts b))"

text \<open>A path text that \<^verbatim>\<open>str(Path(d))\<close> returns unchanged.\<close>

definition path_normal :: "string \<Rightarrow> bool" where
  "path_normal d \<longleftrightarrow> path_str (path_root d) (path_parts d) = d"

section \<open>Lemmas on the primitives\<close>

lemma py_trunc_nonneg [pysem]: "0 \<le> x \<Longrightarrow> py_trunc x = \<lfloor>x\<rfloor>"
  by (simp add: py_trunc_def)

lemma py_truthy_simps [simp, pysem]:
  "py_truthy None = False"
  "py_truthy (Some x) = (x \<noteq> 0)"
  by (simp_all add: py_truthy_def)

lemma py_or_simps [pysem]:
  "py_or None b = b"
  "py_or (Some x) b = (if x = 0 then b else Some x)"
  by (simp_all add: py_or_def)

lemma py_num_simps [simp, pysem]:
  "py_num None = 0"
  "py_num (Some x) = x"
  by (simp_all add: py_num_def)

lemma py_truthy_or: "py_truthy (py_or a b) \<longleftrightarrow> py_truthy a \<or> py_truthy b"
  by (cases a) (auto simp: py_or_def)

lemma py_or_cases: "py_or a b = a \<or> py_or a b = b"
  by (simp add: py_or_def)

lemma floor_div_numeral_rat [simp]:
  "\<lfloor>(numeral a :: rat) / numeral b\<rfloor> = numeral a div numeral b"
  by (metis floor_divide_of_int_eq of_int_numeral)

lemma digit_char_is_digit [simp]: "d < 10 \<Longrightarrow> is_digit (digit_char d)"
  by (simp add: digit_char_def is_digit_def)

lemma of_char_digit_char [simp]: "d < 10 \<Longrightarrow> of_char (digit_char d) - 48 = d"
  by (simp add: digit_char_def)

lemma digit_char_simps [simp, pysem]:
  "digit_char 0 = CHR ''0''" "digit_char 1 = CHR ''1''" "digit_char 2 = CHR ''2''"
  "digit_char 3 = CHR ''3''" "digit_char 4 = CHR ''4''" "digit_char 5 = CHR ''5''"
  "digit_char 6 = CHR ''6''" "digit_char 7 = CHR ''7''" "digit_char 8 = CHR ''8''"
  "digit_char 9 = CHR ''9''" "digit_char (Suc 0) = CHR ''1''"
  by (simp_all add: digit_char_def char_of_def bit_simps)

lemma nat_str_small [pysem]: "n < 10 \<Longrightarrow> nat_str n = [digit_char n]"
  by (simp add: nat_str.simps)

lemma nat_str_large [pysem]:
  "\<not> n < 10 \<Longrightarrow> nat_str n = nat_str (n div 10) @ [digit_char (n mod 10)]"
  by (subst nat_str.simps) simp

lemma nat_str_digits: "list_all is_digit (nat_str n)"
proof (induction n rule: nat_str.induct)
  case (1 n)
  then show ?case
    by (cases "n < 10") (simp_all add: nat_str_small nat_str_large)
qed

lemma nat_str_not_Nil [simp]: "nat_str n \<noteq> []"
  by (cases "n < 10") (simp_all add: nat_str_small nat_str_large)

lemma digits_val_append:
  "digits_val acc (xs @ ys) = digits_val (digits_val acc xs) ys"
  by (induction xs arbitrary: acc) simp_all

lemma digits_val_nat_str: "digits_val 0 (nat_str n) = n"
proof (induction n rule: nat_str.induct)
  case (1 n)
  show ?case
  proof (cases "n < 10")
    case True
    then show ?thesis by (simp add: nat_str_small)
  next
    case False
    with "1.IH" have "digits_val 0 (nat_str (n div 10)) = n div 10" by simp
    with False show ?thesis by (simp add: nat_str_large digits_val_append)
  qed
qed

text \<open>\<open>str\<close> and \<open>int\<close> are inverse on naturals: the round trip the model
  relies on wherever the code prints a number that is parsed again.\<close>

lemma digits_not_sublist_us: "list_all is_digit s \<Longrightarrow> \<not> sublist ''__'' s"
proof
  assume "list_all is_digit s" and "sublist ''__'' s"
  then have "is_digit (CHR ''_'')" using set_mono_sublist by (fastforce simp: list_all_iff)
  then show False by (simp add: is_digit_def)
qed

lemma digit_groups_ok_digits: "s \<noteq> [] \<Longrightarrow> list_all is_digit s \<Longrightarrow> digit_groups_ok s"
  by (cases s) (auto simp: digit_groups_ok_def list_all_iff digits_not_sublist_us)

lemma parse_nat_nat_str [simp]: "parse_nat (nat_str n) = Some n"
proof -
  have "filter is_digit (nat_str n) = nat_str n"
    using nat_str_digits [of n] by (simp add: list_all_iff)
  then show ?thesis
    by (simp add: parse_nat_def digit_groups_ok_digits nat_str_digits digits_val_nat_str)
qed

lemma digit_not_space: "is_digit c \<Longrightarrow> \<not> is_space c"
  by (auto simp: is_digit_def is_space_def)

lemma py_strip_unchanged:
  "s \<noteq> [] \<Longrightarrow> \<not> is_space (hd s) \<Longrightarrow> \<not> is_space (last s) \<Longrightarrow> py_strip s = s"
proof -
  assume s: "s \<noteq> []" "\<not> is_space (hd s)" "\<not> is_space (last s)"
  then have "dropWhile is_space s = s" by (cases s) simp_all
  moreover have "dropWhile is_space (rev s) = rev s"
    using s by (cases "rev s") (simp_all add: hd_rev [symmetric])
  ultimately show ?thesis by (simp add: py_strip_def)
qed

lemma nat_str_hd_last: "is_digit (hd (nat_str n)) \<and> is_digit (last (nat_str n))"
  using nat_str_digits [of n] nat_str_not_Nil [of n] by (simp add: list_all_iff)

lemma py_strip_nat_str [simp]: "py_strip (nat_str n) = nat_str n"
  using nat_str_hd_last [of n] by (simp add: py_strip_unchanged digit_not_space)

lemma nat_str_hd_not_sign: "hd (nat_str n) \<noteq> CHR ''-'' \<and> hd (nat_str n) \<noteq> CHR ''+''"
  using nat_str_hd_last [of n] by (auto simp: is_digit_def)

lemma py_int_nat_str [simp]: "py_int (nat_str n) = Inr (int n)"
proof -
  obtain c cs where cs: "nat_str n = c # cs"
    by (cases "nat_str n") simp_all
  with nat_str_hd_not_sign [of n] have "c \<noteq> CHR ''-''" and "c \<noteq> CHR ''+''" by simp_all
  moreover have "parse_nat (c # cs) = Some n"
    using cs parse_nat_nat_str [of n] by simp
  moreover have "py_strip (c # cs) = c # cs" using cs py_strip_nat_str [of n] by simp
  ultimately show ?thesis by (simp add: py_int_def cs)
qed

lemma py_int_int_str [simp]: "py_int (int_str i) = Inr i"
proof (cases "i < 0")
  case True
  have "py_strip (CHR ''-'' # nat_str (nat (- i))) = CHR ''-'' # nat_str (nat (- i))"
  proof (rule py_strip_unchanged)
    show "\<not> is_space (last (CHR ''-'' # nat_str (nat (- i))))"
      using nat_str_hd_last [of "nat (- i)"] by (simp add: digit_not_space)
  qed (simp_all add: is_space_def)
  with True show ?thesis by (simp add: int_str_def py_int_def)
next
  case False
  then show ?thesis by (simp add: int_str_def)
qed

lemmas path_eval = path_div_def path_root_def path_parts_def path_str_def path_normal_def

lemma join_slash_snoc:
  "join_slash (ps @ [f]) = (if ps = [] then f else join_slash ps @ ''/'' @ f)"
proof (induction ps rule: join_slash.induct)
  case (3 p q ps)
  then show ?case by simp
qed simp_all

text \<open>Joining a folder with a relative single-part name: the name is appended
  after a separator, except that the empty path (\<^verbatim>\<open>.\<close>) contributes nothing
  and a bare root no separator.\<close>

lemma path_div_name:
  assumes "path_root f = []" and "path_parts f = [f]"
  shows "path_div d f =
           (if path_parts d = [] then path_root d @ f
            else path_str (path_root d) (path_parts d) @ ''/'' @ f)"
  using assms by (simp add: path_div_def path_str_def join_slash_snoc)

lemma path_div_normal:
  "path_root f = [] \<Longrightarrow> path_parts f = [f] \<Longrightarrow> path_normal d \<Longrightarrow> path_parts d \<noteq> [] \<Longrightarrow>
   path_div d f = d @ ''/'' @ f"
  by (simp add: path_div_name path_normal_def)

lemma path_div_empty:
  "path_root f = [] \<Longrightarrow> path_parts f = [f] \<Longrightarrow> path_div [] f = f"
  by (simp add: path_div_name path_root_def path_parts_def)

end
