(* ===== verification/FormatOptions.thy ===== *)
theory FormatOptions
  imports Prelude
begin

text \<open>
  The format option builder and the option bundle handed to the extraction
  library: \<^verbatim>\<open>build_format\<close> (src/main.py, lines 26--28) and the part of
  \<^verbatim>\<open>Main._start\<close> (lines 169--187) that turns the three user choices (output
  folder text, resolution-cap combo index, container combo index) into the
  \<^verbatim>\<open>ydl_opts\<close> dictionary. The dictionary is a record with one field per key;
  the constant keys of the source are constant fields. The folder creation
  (\<^verbatim>\<open>outdir.mkdir\<close>) is the oracle argument \<open>mk\<close> of \<open>Window.start\<close>.
\<close>

section \<open>The format selector\<close>

text \<open>\<^verbatim>\<open>if max_res\<close> is Python truthiness: \<open>None\<close> and \<open>0\<close> both select the
  uncapped selector.\<close>

definition build_format :: "int option \<Rightarrow> string" where
  "build_format max_res =
     (case max_res of
        Some r \<Rightarrow>
          if r \<noteq> 0 then ''bv*[height<='' @ int_str r @ '']+ba/b[height<='' @ int_str r @ '']''
          else ''bv*+ba/b''
      | None \<Rightarrow> ''bv*+ba/b'')"



section \<open>The combo boxes\<close>

text \<open>
  The items of the two combo boxes, in the order \<^verbatim>\<open>_build_ui\<close> adds them
  (line 122 and 123). A combo box whose current index is out of range (Qt's
  index \<open>-1\<close>) reports the empty text.
\<close>

definition max_res_items :: "string list" where
  "max_res_items = [''No cap'', ''2160'', ''1440'', ''1080'', ''720'']"

definition format_items :: "string list" where
  "format_items = [''MKV (safe)'', ''MP4'']"

definition combo_text :: "string list \<Rightarrow> int \<Rightarrow> string" where
  "combo_text items idx = (if 0 \<le> idx \<and> nat idx < length items then items ! nat idx else [])"

text \<open>\<^verbatim>\<open>max_res_val = None if max_res_text=="No cap" else int(max_res_text)\<close>
  (line 171): \<open>int()\<close> raises on any other non-numeric text.\<close>

definition max_res_value :: "string \<Rightarrow> py_exc + int option" where
  "max_res_value txt = (if txt = ''No cap'' then Inr None else map_sum id Some (py_int txt))"

text \<open>\<^verbatim>\<open>merge_fmt = "mkv" if self.format_combo.currentIndex()==0 else "mp4"\<close>
  (line 172).\<close>

definition merge_fmt :: "int \<Rightarrow> string" where
  "merge_fmt idx = (if idx = 0 then ''mkv'' else ''mp4'')"

section \<open>The option bundle\<close>

text \<open>
  The keys of \<^verbatim>\<open>ydl_opts\<close> (lines 174--187), one field each, in the order
  of the dictionary literal. The nested dictionaries (\<^verbatim>\<open>outtmpl\<close>,
  \<^verbatim>\<open>extractor_args\<close>, \<^verbatim>\<open>http_headers\<close>) are association lists in
  their literal order. The output template is
  \<^verbatim>\<open>str(outdir / "%(title)s [%(id)s].%(ext)s")\<close> with
  \<^verbatim>\<open>outdir = Path(self.out_dir.text())\<close>: the \<^verbatim>\<open>pathlib\<close> join
  \<open>path_div\<close> of the prelude (POSIX paths).
\<close>

record ydl_opts =
  o_format :: string
  o_merge_output_format :: string
  o_outtmpl :: "(string \<times> string) list"
  o_quiet :: bool
  o_geo_bypass :: bool
  o_extractor_args :: "(string \<times> (string \<times> string list) list) list"
  o_http_headers :: "(string \<times> string) list"
  o_http_chunk_size :: nat
  o_retries :: nat
  o_fragment_retries :: nat
  o_continuedl :: bool
  o_ignoreerrors :: string

definition out_template :: string where
  "out_template = ''%(title)s [%(id)s].%(ext)s''"

definition user_agent :: string where
  "user_agent = ''Mozilla/5.0 (Windows NT 10.0; Win64; x64) AppleWebKit/537.36 (KHTML, like Gecko) Chrome/124.0 Safari/537.36''"

definition make_opts :: "string \<Rightarrow> int option \<Rightarrow> string \<Rightarrow> ydl_opts" where
  "make_opts outdir max_res_val mfmt =
     \<lparr> o_format = build_format max_res_val,
       o_merge_output_format = mfmt,
       o_outtmpl = [(''default'', path_div outdir out_template)],
       o_quiet = True,
       o_geo_bypass = True,
       o_extractor_args = [(''youtube'', [(''player_client'', [''android''])])],
       o_http_headers = [(''User-Agent'', user_agent)],
       o_http_chunk_size = 10 * 1024 * 1024,
       o_retries = 10,
       o_fragment_retries = 10,
       o_continuedl = True,
       o_ignoreerrors = ''only_download'' \<rparr>"

text \<open>Lines 169--187 of \<^verbatim>\<open>_start\<close>: the options from the three widgets, or the
  \<open>ValueError\<close> of \<open>int()\<close>.\<close>

definition start_opts :: "string \<Rightarrow> int \<Rightarrow> int \<Rightarrow> py_exc + ydl_opts" where
  "start_opts outdir res_idx fmt_idx =
     (case max_res_value (combo_text max_res_items res_idx) of
        Inl e \<Rightarrow> Inl e
      | Inr v \<Rightarrow> Inr (make_opts outdir v (merge_fmt fmt_idx)))"

section \<open>Lemmas\<close>

lemma build_format_capped:
  "r \<noteq> 0 \<Longrightarrow> build_format (Some r) =
     ''bv*[height<='' @ int_str r @ '']+ba/b[height<='' @ int_str r @ '']''"
  by (simp add: build_format_def)

lemma build_format_uncapped_cases:
  "max_res = None \<or> max_res = Some 0 \<Longrightarrow> build_format max_res = ''bv*+ba/b''"
  by (auto simp: build_format_def)








lemma combo_text_max_res [simp]:
  "combo_text max_res_items 0 = ''No cap''"
  "combo_text max_res_items 1 = ''2160''"
  "combo_text max_res_items 2 = ''1440''"
  "combo_text max_res_items 3 = ''1080''"
  "combo_text max_res_items 4 = ''720''"
  by (simp_all add: combo_text_def max_res_items_def)

lemma combo_text_out_of_range:
  "idx < 0 \<or> length items \<le> nat idx \<Longrightarrow> combo_text items idx = []"
  by (auto simp: combo_text_def)

lemma max_res_value_nat_str [simp]: "max_res_value (nat_str n) = Inr (Some (int n))"
proof -
  have "nat_str n \<noteq> ''No cap''"
    using nat_str_digits [of n] by (auto simp: is_digit_def)
  then show ?thesis by (simp add: max_res_value_def)
qed

lemma max_res_items_numeric:
  "0 < i \<Longrightarrow> i < length max_res_items \<Longrightarrow>
   \<exists>n. max_res_items ! i = nat_str n \<and> 0 < n"
proof -
  assume "0 < i" "i < length max_res_items"
  then have "i \<in> {1, 2, 3, 4}" by (auto simp: max_res_items_def)
  then show ?thesis
  proof (elim insertE emptyE)
    show "i = 1 \<Longrightarrow> ?thesis"
      by (rule exI [of _ 2160]) (simp add: max_res_items_def pysem)
    show "i = 2 \<Longrightarrow> ?thesis"
      by (rule exI [of _ 1440]) (simp add: max_res_items_def pysem)
    show "i = 3 \<Longrightarrow> ?thesis"
      by (rule exI [of _ 1080]) (simp add: max_res_items_def pysem)
    show "i = 4 \<Longrightarrow> ?thesis"
      by (rule exI [of _ 720]) (simp add: max_res_items_def pysem)
  qed
qed

lemma max_res_value_valid:
  assumes "0 \<le> idx" and "idx < 5"
  shows "\<exists>v. max_res_value (combo_text max_res_items idx) = Inr v"
proof (cases "idx = 0")
  case True
  then show ?thesis by (simp add: max_res_value_def)
next
  case False
  with assms have i: "0 < nat idx" "nat idx < length max_res_items" by (auto simp: max_res_items_def)
  then obtain n where "max_res_items ! nat idx = nat_str n" using max_res_items_numeric by blast
  then have "combo_text max_res_items idx = nat_str n" using assms i by (simp add: combo_text_def)
  then show ?thesis by simp
qed

lemma out_template_name: "path_root out_template = []" "path_parts out_template = [out_template]"
  by (simp_all add: out_template_def path_root_def path_parts_def)

lemma start_opts_valid:
  "0 \<le> idx \<Longrightarrow> idx < 5 \<Longrightarrow> start_opts outdir idx f = Inr (make_opts outdir (projr (max_res_value (combo_text max_res_items idx))) (merge_fmt f))"
  using max_res_value_valid [of idx] by (auto simp: start_opts_def)

section \<open>Properties of the option builder\<close>



text \<open>C18. The format selector carries a height filter exactly when the cap is truthy in Python: a cap of 0, like no cap, gives the uncapped selector, although the spec says the selector carries the cap whenever one is given.\<close>

theorem build_format_height_iff:
  "sublist ''height'' (build_format m) \<longleftrightarrow> (\<exists>r. m = Some r \<and> r \<noteq> 0)"
proof (cases "\<exists>r. m = Some r \<and> r \<noteq> 0")
  case True
  then obtain r where r: "m = Some r" "r \<noteq> 0" by blast
  have "build_format m = ''bv*['' @ ''height'' @ ''<='' @ int_str r @ '']+ba/b[height<='' @ int_str r @ '']''"
    using r by (simp add: build_format_capped)
  then have "sublist ''height'' (build_format m)" by (metis sublist_appendI)
  with True show ?thesis by simp
next
  case False
  then have "build_format m = ''bv*+ba/b''" by (cases m) (auto simp: build_format_def)
  with False show ?thesis by (simp add: sublist_code)
qed

text \<open>C19. For every index of the resolution combo box, _start builds the option bundle: the output template is the pathlib join of the folder text with "%(title)s [%(id)s].%(ext)s", which is the folder, a slash and the name for a folder text in pathlib's normal form and the bare name (the working directory) for an empty folder text; the merge format is mkv exactly for the first container choice, and the fixed keys hold their literal values (android player client, 10 MiB chunks, 10 retries, ignoreerrors "only_download").\<close>

theorem start_opts_bundle:
  assumes "0 \<le> idx" and "idx < 5"
  shows "\<exists>opts. start_opts outdir idx f = Inr opts \<and>
           (path_normal outdir \<and> path_parts outdir \<noteq> [] \<longrightarrow>
              o_outtmpl opts = [(''default'', outdir @ ''/%(title)s [%(id)s].%(ext)s'')]) \<and>
           (outdir = [] \<longrightarrow> o_outtmpl opts = [(''default'', ''%(title)s [%(id)s].%(ext)s'')]) \<and>
           (o_merge_output_format opts = ''mkv'' \<longleftrightarrow> f = 0) \<and>
           map_of (o_extractor_args opts) ''youtube'' = Some [(''player_client'', [''android''])] \<and>
           o_http_chunk_size opts = 10485760 \<and> o_retries opts = 10 \<and>
           o_ignoreerrors opts = ''only_download''"
proof -
  obtain v where "max_res_value (combo_text max_res_items idx) = Inr v"
    using max_res_value_valid [OF assms] by blast
  moreover have "path_normal outdir \<and> path_parts outdir \<noteq> [] \<longrightarrow>
      path_div outdir out_template = outdir @ ''/%(title)s [%(id)s].%(ext)s''"
    using path_div_normal [OF out_template_name] by (simp add: out_template_def)
  moreover have "path_div [] out_template = ''%(title)s [%(id)s].%(ext)s''"
    using path_div_empty [OF out_template_name] by (simp add: out_template_def)
  ultimately show ?thesis
    by (auto simp: start_opts_def make_opts_def merge_fmt_def)
qed

theorem start_opts_bundle_witness:
  "\<exists>opts. start_opts ''/tmp/dl'' 0 1 = Inr opts \<and>
     o_outtmpl opts = [(''default'', ''/tmp/dl/%(title)s [%(id)s].%(ext)s'')] \<and> o_merge_output_format opts \<noteq> ''mkv''"
proof -
  have "path_normal ''/tmp/dl'' \<and> path_parts ''/tmp/dl'' \<noteq> []"
    by (simp add: path_normal_def path_root_def path_parts_def path_str_def)
  then show ?thesis using start_opts_bundle [of 0 "''/tmp/dl''" 1] by auto
qed

text \<open>C20. For each resolution choice of the combo box other than "No cap", _start parses the item text with int() and the format selector contains that text verbatim (print/parse round trip), with the merge format chosen by the container index.\<close>

theorem start_opts_combo_roundtrip:
  assumes "0 < idx" and "idx < 5"
  shows "\<exists>opts. start_opts outdir idx f = Inr opts \<and>
             sublist (combo_text max_res_items idx) (o_format opts) \<and> o_merge_output_format opts = merge_fmt f"
proof -
  have idx: "0 < nat idx" "nat idx < length max_res_items" using assms by (auto simp: max_res_items_def)
  then obtain n where n: "max_res_items ! nat idx = nat_str n" "0 < n"
    using max_res_items_numeric by blast
  have ctext: "combo_text max_res_items idx = nat_str n"
    using assms n idx by (simp add: combo_text_def)
  have istr: "int_str (int n) = nat_str n" by (simp add: int_str_def)
  have "build_format (Some (int n)) = ''bv*[height<='' @ nat_str n @ '']+ba/b[height<='' @ nat_str n @ '']''"
    using n by (simp add: build_format_capped istr)
  then have "sublist (nat_str n) (build_format (Some (int n)))"
    by (metis append.assoc sublist_appendI)
  then show ?thesis by (simp add: start_opts_def ctext make_opts_def)
qed

theorem start_opts_combo_roundtrip_witness:
  "\<exists>opts. start_opts ''downloads'' 3 0 = Inr opts \<and> sublist ''1080'' (o_format opts) \<and> o_merge_output_format opts = ''mkv''"
  using start_opts_combo_roundtrip [of 3 "''downloads''" 0] by (simp add: merge_fmt_def)

text \<open>C21. An out-of-range resolution index (for example Qt's -1) gives the empty combo text, on which int() raises ValueError, so _start raises before any worker is created.\<close>

theorem start_opts_invalid_index:
  assumes "idx < 0 \<or> 5 \<le> idx"
  shows "start_opts outdir idx f = Inl (ValueError (''invalid literal for int() with base 10: '' @ py_repr []))"
proof -
  have "combo_text max_res_items idx = []"
    using assms by (auto simp: combo_text_def max_res_items_def)
  then show ?thesis
    by (simp add: start_opts_def max_res_value_def py_int_def py_strip_def parse_nat_def digit_groups_ok_def)
qed

theorem start_opts_invalid_index_witness:
  "start_opts ''downloads'' (-1) 0 = Inl (ValueError (''invalid literal for int() with base 10: '' @ py_repr []))"
  by (rule start_opts_invalid_index) simp

end
