(* ===== verification/HumanBytes.thy ===== *)
theory HumanBytes
  imports Prelude
begin

text \<open>
  \<^verbatim>\<open>human_bytes\<close> (src/main.py, lines 30--34): a byte count or rate as a
  string with one decimal and a binary unit. The number is read as its exact
  rational value: dividing a binary float by 1024 is exact (it only lowers the
  exponent), so the loop computes exactly \<open>n / 1024 ^ i\<close>, and
  \<open>f"{n:.1f}"\<close> rounds that exact value to one decimal, ties to even, as
  CPython's correctly rounded formatting does. The loop
  \<^verbatim>\<open>while n >= 1024 and i < len(units)-1\<close> is \<open>hb_loop\<close>, a
  \<^theory_text>\<open>function\<close> whose termination measure is the number of units left.
\<close>

section \<open>Definitions\<close>

definition hb_units :: "string list" where
  "hb_units = [''B'', ''KB'', ''MB'', ''GB'', ''TB'']"

function hb_loop :: "rat \<Rightarrow> nat \<Rightarrow> rat \<times> nat" where
  "hb_loop n i = (if 1024 \<le> n \<and> i < length hb_units - 1 then hb_loop (n / 1024) (Suc i) else (n, i))"
  by pat_completeness auto
termination
  by (relation "measure (\<lambda>(n, i). length hb_units - 1 - i)") (auto simp: hb_units_def)

declare hb_loop.simps [simp del]

text \<open>Round half to even, the rounding of Python's float formatting.\<close>

definition round_half_even :: "rat \<Rightarrow> int" where
  "round_half_even x =
     (let f = \<lfloor>x\<rfloor>; r = x - of_int f
      in if r < 1/2 then f else if 1/2 < r then f + 1 else if even f then f else f + 1)"

text \<open>\<open>f"{x:.1f}"\<close> for \<open>x \<ge> 0\<close>, the only values \<open>human_bytes\<close> formats.\<close>

definition fmt_1f :: "rat \<Rightarrow> string" where
  "fmt_1f x = (let t = round_half_even (10 * x) in int_str (t div 10) @ ''.'' @ int_str (t mod 10))"

definition human_bytes :: "rat option \<Rightarrow> string" where
  "human_bytes v =
     (case v of
        None \<Rightarrow> ''0 B''
      | Some n \<Rightarrow>
          if n = 0 \<or> n \<le> 0 then ''0 B''
          else (let (m, i) = hb_loop n 0 in fmt_1f m @ '' '' @ hb_units ! i))"

text \<open>The unit index without the loop: the number of powers 1024, 1024^2,
  1024^3, 1024^4 that do not exceed the value.\<close>

definition hb_unit_ref :: "rat \<Rightarrow> nat" where
  "hb_unit_ref n = length (filter (\<lambda>k. (1024::rat) ^ k \<le> n) [1, 2, 3, 4])"

section \<open>The scaling loop\<close>

lemma hb_units_length [simp]: "length hb_units = 5"
  by (simp add: hb_units_def)

lemma hb_loop_step:
  "1024 \<le> n \<Longrightarrow> i < 4 \<Longrightarrow> hb_loop n i = hb_loop (n / 1024) (Suc i)"
  by (simp add: hb_loop.simps)

lemma hb_loop_stop:
  "\<not> (1024 \<le> n \<and> i < 4) \<Longrightarrow> hb_loop n i = (n, i)"
  by (simp add: hb_loop.simps)

text \<open>
  What the loop computes, from any unit index \<open>i \<le> 4\<close>: the index \<open>k\<close> it stops
  at is the largest one with \<open>1024 ^ (k - i) \<le> n\<close>, capped at 4, and the value is
  \<open>n\<close> divided by that power. The proof follows the loop (computation induction).
\<close>

lemma hb_loop_spec:
  assumes "hb_loop n i = (m, k)" and "i \<le> 4"
  shows "i \<le> k \<and> k \<le> 4 \<and> m = n / 1024 ^ (k - i) \<and>
         (k = i \<or> 1024 ^ (k - i) \<le> n) \<and> (k = 4 \<or> n < 1024 ^ (k - i + 1))"
  using assms
proof (induction n i arbitrary: m k rule: hb_loop.induct)
  case (1 n i)
  show ?case
  proof (cases "1024 \<le> n \<and> i < 4")
    case True
    with "1.prems" have rec: "hb_loop (n / 1024) (Suc i) = (m, k)"
      by (simp add: hb_loop_step)
    with True "1.IH" have IH: "Suc i \<le> k \<and> k \<le> 4 \<and> m = n / 1024 / 1024 ^ (k - Suc i) \<and>
        (k = Suc i \<or> 1024 ^ (k - Suc i) \<le> n / 1024) \<and>
        (k = 4 \<or> n / 1024 < 1024 ^ (k - Suc i + 1))"
      by simp
    then have k: "k - i = Suc (k - Suc i)" by arith
    have pow: "(1024::rat) ^ (k - i) = 1024 * 1024 ^ (k - Suc i)"
      by (simp add: k)
    have "m = n / 1024 ^ (k - i)"
      using IH by (simp add: pow)
    moreover have "k = i \<or> 1024 ^ (k - i) \<le> n"
      using IH True by (auto simp: pow field_simps)
    moreover have "k = 4 \<or> n < 1024 ^ (k - i + 1)"
      using IH by (auto simp: pow field_simps)
    ultimately show ?thesis using IH by simp
  next
    case False
    with "1.prems" have "m = n" "k = i" by (simp_all add: hb_loop_stop)
    with False "1.prems" show ?thesis by auto
  qed
qed

section \<open>Rounding\<close>

lemma round_half_even_bounds:
  "\<bar>of_int (round_half_even x) - x\<bar> \<le> 1/2"
proof -
  define f where "f = \<lfloor>x\<rfloor>"
  have f: "of_int f \<le> x" "x < of_int f + 1"
    unfolding f_def by linarith+
  show ?thesis
    unfolding round_half_even_def Let_def f_def [symmetric]
    using f by (auto simp: abs_if)
qed

lemma round_half_even_nonneg: "0 \<le> x \<Longrightarrow> 0 \<le> round_half_even x"
  by (auto simp: round_half_even_def Let_def)

lemma hb_unit_ref_eq:
  assumes "k \<le> 4" and "k = 0 \<or> 1024 ^ k \<le> n" and "k = 4 \<or> n < 1024 ^ (k + 1)"
  shows "hb_unit_ref n = k"
proof -
  have "k \<in> {0, 1, 2, 3, 4}" using assms(1) by auto
  then show ?thesis using assms(2,3) by (auto simp: hb_unit_ref_def)
qed

text \<open>The loop stops at the unique unit index the bounds determine.\<close>

lemma hb_loop_at:
  assumes "k \<le> 4" and "k = 0 \<or> 1024 ^ k \<le> n" and "k = 4 \<or> n < 1024 ^ (k + 1)"
  shows "hb_loop n 0 = (n / 1024 ^ k, k)"
proof -
  obtain m k' where mk: "hb_loop n 0 = (m, k')" by (cases "hb_loop n 0")
  from hb_loop_spec [OF mk] have spec: "k' \<le> 4" "m = n / 1024 ^ k'"
      "k' = 0 \<or> 1024 ^ k' \<le> n" "k' = 4 \<or> n < 1024 ^ (k' + 1)" by simp_all
  have "k' = k" using hb_unit_ref_eq [OF spec(1,3,4)] hb_unit_ref_eq [OF assms] by simp
  with mk spec(2) show ?thesis by simp
qed

lemma human_bytes_at:
  "0 < n \<Longrightarrow> k \<le> 4 \<Longrightarrow> k = 0 \<or> 1024 ^ k \<le> n \<Longrightarrow> k = 4 \<or> n < 1024 ^ (k + 1) \<Longrightarrow>
   human_bytes (Some n) = fmt_1f (n / 1024 ^ k) @ '' '' @ hb_units ! k"
  by (simp add: human_bytes_def hb_loop_at)

lemma round_half_even_10240:
  assumes "20479 / 2 \<le> y" and "y < 10240"
  shows "round_half_even y = 10240"
proof -
  have f: "\<lfloor>y\<rfloor> = 10239" using assms by (simp add: floor_eq_iff)
  have "1/2 \<le> y - 10239" using assms by simp
  then show ?thesis by (auto simp: round_half_even_def Let_def f)
qed

lemma fmt_1f_1024:
  "1024 - 1/20 \<le> x \<Longrightarrow> x < 1024 \<Longrightarrow> fmt_1f x = ''1024.0''"
  using round_half_even_10240 [of "10 * x"] by (simp add: fmt_1f_def int_str_def pysem)

section \<open>Properties of human_bytes\<close>

lemmas human_bytes_eval = human_bytes_def hb_loop.simps fmt_1f_def round_half_even_def hb_units_def int_str_def

text \<open>C14. For a positive value the unit index k (B, KB, MB, GB, TB) is the largest k <= 4 with 1024^k <= n, and the printed number is n / 1024^k with one decimal.\<close>

theorem human_bytes_unit:
  assumes "0 < n"
  shows "\<exists>k \<le> 4. human_bytes (Some n) = fmt_1f (n / 1024 ^ k) @ '' '' @ hb_units ! k \<and>
           (k = 0 \<or> 1024 ^ k \<le> n) \<and> (k = 4 \<or> n < 1024 ^ (k + 1))"
proof -
  obtain m k where mk: "hb_loop n 0 = (m, k)" by (cases "hb_loop n 0")
  from hb_loop_spec [OF mk] have spec: "k \<le> 4 \<and> m = n / 1024 ^ k \<and>
      (k = 0 \<or> 1024 ^ k \<le> n) \<and> (k = 4 \<or> n < 1024 ^ (k + 1))" by simp
  have "human_bytes (Some n) = fmt_1f m @ '' '' @ hb_units ! k"
    using assms mk by (simp add: human_bytes_def)
  with spec show ?thesis by auto
qed

theorem human_bytes_unit_witness:
  "\<exists>k. human_bytes (Some 1536) = fmt_1f (1536 / 1024 ^ k) @ '' '' @ hb_units ! k"
  using human_bytes_unit [of 1536] by auto

text \<open>C15. The one-decimal formatting of a non-negative value prints integer part and one digit of a tenth-count t with |t/10 - x| <= 1/20.\<close>

theorem fmt_1f_accuracy:
  assumes "0 \<le> x"
  shows "\<exists>t. fmt_1f x = int_str (t div 10) @ ''.'' @ int_str (t mod 10) \<and>
             0 \<le> t \<and> \<bar>of_int t / 10 - x\<bar> \<le> 1/20"
proof -
  define t where "t = round_half_even (10 * x)"
  have "\<bar>of_int t - 10 * x\<bar> \<le> 1/2" unfolding t_def by (rule round_half_even_bounds)
  then have "\<bar>of_int t / 10 - x\<bar> \<le> 1/20" by (simp add: abs_le_iff field_simps)
  moreover have "0 \<le> t" unfolding t_def using assms by (simp add: round_half_even_nonneg)
  ultimately show ?thesis by (auto simp: fmt_1f_def t_def [symmetric])
qed

theorem fmt_1f_accuracy_witness:
  "\<exists>t. fmt_1f (3/2) = int_str (t div 10) @ ''.'' @ int_str (t mod 10) \<and> 0 \<le> t"
  using fmt_1f_accuracy [of "3/2"] by auto

text \<open>C16. The unit is chosen before rounding, so a value in the last twentieth below 1024 of a unit (B, KB, MB, GB) is printed as "1024.0" of that unit, not as "1.0" of the next: for every k < 4 and every n with 1024^(k+1) - 1024^k/20 <= n < 1024^(k+1).\<close>

theorem human_bytes_prints_1024:
  assumes "k < 4" and "1024 ^ (k + 1) - 1024 ^ k / 20 \<le> n" and "n < 1024 ^ (k + 1)"
  shows "human_bytes (Some n) = ''1024.0 '' @ hb_units ! k"
proof -
  have p: "(0::rat) < 1024 ^ k" by simp
  have lo: "1024 - 1/20 \<le> n / 1024 ^ k" and hi: "n / 1024 ^ k < 1024"
    using assms(2,3) p by (simp_all add: field_simps)
  have "1 \<le> n / 1024 ^ k" using lo by linarith
  then have "1024 ^ k * 1 \<le> 1024 ^ k * (n / 1024 ^ k)" using p by (intro mult_left_mono) simp_all
  then have "1024 ^ k \<le> n" using p by simp
  moreover from this p have "0 < n" by linarith
  ultimately have "human_bytes (Some n) = fmt_1f (n / 1024 ^ k) @ '' '' @ hb_units ! k"
    using assms(1,3) by (intro human_bytes_at) simp_all
  then show ?thesis using fmt_1f_1024 [OF lo hi] by simp
qed

theorem human_bytes_prints_1024_witness:
  "human_bytes (Some 1048575) = ''1024.0 KB''"
  using human_bytes_prints_1024 [of 1 1048575] by (simp add: hb_units_def)

end
