(* ===== verification/Progress.thy ===== *)
theory Progress
  imports HumanBytes
begin

text \<open>
  The progress-event protocol between the worker thread and the window.
  \<^item> \<open>payload\<close> is the dictionary passed with \<^verbatim>\<open>sig_update.emit(i, {...})\<close>
    (src/main.py, lines 53--84): one optional field per key the code writes
    (\<^verbatim>\<open>status\<close>, \<^verbatim>\<open>progress\<close>, \<^verbatim>\<open>speed\<close>, \<^verbatim>\<open>title\<close>, \<^verbatim>\<open>error\<close>), and one
    definition per dictionary literal of the source;
  \<^item> \<open>hook_dict\<close> is the progress dictionary the extraction library passes to
    the hook, with the keys the hook reads;
  \<^item> \<open>hook\<close> is the closure \<^verbatim>\<open>hook(d)\<close> of \<^verbatim>\<open>DLWorker.run\<close> (lines 55--67): the
    payload it emits, or \<open>None\<close> when it emits nothing;
  \<^item> \<open>progress_event\<close> is the closed event type of the specification
    (Starting, Downloading, Merging, Done, Error, TitleResolved) and
    \<open>event_of\<close> reads a payload as such an event: the abstraction under which
    the worker's dictionaries refine the specified protocol.
\<close>

section \<open>Payloads\<close>

record payload =
  p_status :: "string option"
  p_progress :: "int option"
  p_speed :: "string option"
  p_title :: "string option"
  p_error :: "string option"

definition no_keys :: payload where
  "no_keys = \<lparr>p_status = None, p_progress = None, p_speed = None, p_title = None, p_error = None\<rparr>"

definition starting_payload :: payload where
  "starting_payload = no_keys\<lparr>p_status := Some ''Starting'', p_progress := Some 0\<rparr>"

definition downloading_payload :: "int \<Rightarrow> string \<Rightarrow> payload" where
  "downloading_payload pct sp =
     no_keys\<lparr>p_status := Some ''Downloading'', p_progress := Some pct, p_speed := Some sp\<rparr>"

definition merging_payload :: payload where
  "merging_payload = no_keys\<lparr>p_status := Some ''Merging'', p_progress := Some 100\<rparr>"

definition title_payload :: "string \<Rightarrow> payload" where
  "title_payload t = no_keys\<lparr>p_title := Some t\<rparr>"

definition done_payload :: payload where
  "done_payload = no_keys\<lparr>p_status := Some ''Done'', p_progress := Some 100\<rparr>"

definition error_payload :: "string \<Rightarrow> payload" where
  "error_payload msg = no_keys\<lparr>p_status := Some ''Error'', p_error := Some msg\<rparr>"

section \<open>The specified event type and the abstraction\<close>

datatype progress_event =
    Starting
  | Downloading int string
  | Merging
  | Done
  | Error string
  | TitleResolved string

definition event_of :: "payload \<Rightarrow> progress_event option" where
  "event_of p =
     (case p_status p of
        None \<Rightarrow> (case p_title p of Some t \<Rightarrow> Some (TitleResolved t) | None \<Rightarrow> None)
      | Some st \<Rightarrow>
          if st = ''Starting'' then Some Starting
          else if st = ''Downloading'' then
            (case (p_progress p, p_speed p) of
               (Some pct, Some sp) \<Rightarrow> Some (Downloading pct sp)
             | _ \<Rightarrow> None)
          else if st = ''Merging'' then Some Merging
          else if st = ''Done'' then Some Done
          else if st = ''Error'' then map_option Error (p_error p)
          else None)"

definition is_terminal :: "progress_event \<Rightarrow> bool" where
  "is_terminal e = (case e of Done \<Rightarrow> True | Error _ \<Rightarrow> True | _ \<Rightarrow> False)"

text \<open>
  The order of one item's events as the worker emits them: \<open>Starting\<close>, at
  most one \<open>TitleResolved\<close>, any sequence of \<open>Downloading\<close> and \<open>Merging\<close>
  events (one \<open>Merging\<close> per file the library finishes), and exactly one
  terminal event, last.
\<close>

definition is_progress :: "progress_event \<Rightarrow> bool" where
  "is_progress e = (case e of Downloading _ _ \<Rightarrow> True | Merging \<Rightarrow> True | _ \<Rightarrow> False)"

fun body_ok :: "progress_event list \<Rightarrow> bool" where
  "body_ok [] = False"
| "body_ok [e] = is_terminal e"
| "body_ok (e # e' # es) = (is_progress e \<and> body_ok (e' # es))"

fun item_protocol :: "progress_event list \<Rightarrow> bool" where
  "item_protocol (Starting # TitleResolved t # es) = body_ok es"
| "item_protocol (Starting # es) = body_ok es"
| "item_protocol _ = False"

definition payload_protocol :: "payload list \<Rightarrow> bool" where
  "payload_protocol ps = (case those (map event_of ps) of Some es \<Rightarrow> item_protocol es | None \<Rightarrow> False)"

definition terminal_payload :: "payload \<Rightarrow> bool" where
  "terminal_payload p = (case event_of p of Some e \<Rightarrow> is_terminal e | None \<Rightarrow> False)"

section \<open>The progress hook\<close>

record hook_dict =
  d_status :: "string option"
  d_total_bytes :: "rat option"
  d_total_bytes_estimate :: "rat option"
  d_downloaded_bytes :: "rat option"
  d_speed :: "rat option"

text \<open>\<^verbatim>\<open>total = d.get("total_bytes") or d.get("total_bytes_estimate") or 0\<close>\<close>

definition hook_total :: "hook_dict \<Rightarrow> rat" where
  "hook_total d = py_num (py_or (d_total_bytes d) (py_or (d_total_bytes_estimate d) (Some 0)))"

text \<open>\<^verbatim>\<open>got = d.get("downloaded_bytes") or 0\<close>\<close>

definition hook_got :: "hook_dict \<Rightarrow> rat" where
  "hook_got d = py_num (py_or (d_downloaded_bytes d) (Some 0))"

text \<open>\<^verbatim>\<open>pct = int(got*100/total) if total else 0\<close>\<close>

definition hook_pct :: "hook_dict \<Rightarrow> int" where
  "hook_pct d = (if hook_total d \<noteq> 0 then py_trunc (hook_got d * 100 / hook_total d) else 0)"

text \<open>\<^verbatim>\<open>f"{human_bytes(d.get('speed'))}/s" if d.get("speed") else ""\<close>\<close>

definition hook_speed :: "hook_dict \<Rightarrow> string" where
  "hook_speed d = (if py_truthy (d_speed d) then human_bytes (d_speed d) @ ''/s'' else [])"

definition hook :: "hook_dict \<Rightarrow> payload option" where
  "hook d =
     (if d_status d = Some ''downloading'' then Some (downloading_payload (hook_pct d) (hook_speed d))
      else if d_status d = Some ''finished'' then Some merging_payload
      else None)"

section \<open>Lemmas\<close>

lemmas payload_defs = no_keys_def starting_payload_def downloading_payload_def
  merging_payload_def title_payload_def done_payload_def error_payload_def

lemma event_of_payloads [simp]:
  "event_of starting_payload = Some Starting"
  "event_of (downloading_payload pct sp) = Some (Downloading pct sp)"
  "event_of merging_payload = Some Merging"
  "event_of (title_payload t) = Some (TitleResolved t)"
  "event_of done_payload = Some Done"
  "event_of (error_payload msg) = Some (Error msg)"
  by (simp_all add: event_of_def payload_defs)

lemma hook_total_pos:
  "0 < hook_total d \<Longrightarrow> hook_pct d = \<lfloor>hook_got d * 100 / hook_total d\<rfloor> \<or> hook_got d < 0"
  by (auto simp: hook_pct_def pysem)

lemma hook_got_nonneg:
  "d_downloaded_bytes d = None \<or> 0 \<le> the (d_downloaded_bytes d) \<Longrightarrow> 0 \<le> hook_got d"
  by (cases "d_downloaded_bytes d") (auto simp: hook_got_def py_or_def)

lemma body_ok_snoc:
  "list_all is_progress xs \<Longrightarrow> is_terminal t \<Longrightarrow> body_ok (xs @ [t])"
proof (induction xs)
  case Nil
  then show ?case by simp
next
  case (Cons x xs)
  then show ?case by (cases xs) simp_all
qed

lemma item_protocol_no_title:
  "(\<forall>t es'. es \<noteq> TitleResolved t # es') \<Longrightarrow> item_protocol (Starting # es) = body_ok es"
proof (cases es)
  case (Cons e es')
  moreover assume "\<forall>t es'. es \<noteq> TitleResolved t # es'"
  ultimately show ?thesis by (cases e) simp_all
qed simp

lemma is_terminal_simps [simp]:
  "is_terminal Done" "is_terminal (Error m)" "\<not> is_terminal Starting"
  "\<not> is_terminal (TitleResolved t)" "\<not> is_terminal (Downloading pct sp)" "\<not> is_terminal Merging"
  by (simp_all add: is_terminal_def)

lemma is_progress_simps [simp]:
  "is_progress (Downloading pct sp)" "is_progress Merging"
  "\<not> is_progress Done" "\<not> is_progress (Error m)" "\<not> is_progress Starting"
  "\<not> is_progress (TitleResolved t)"
  by (simp_all add: is_progress_def)

lemma hook_cases:
  "hook d = None \<or> hook d = Some merging_payload \<or>
   (\<exists>pct sp. hook d = Some (downloading_payload pct sp))"
  by (auto simp: hook_def)

section \<open>Properties of the progress hook\<close>

text \<open>C9. When the total the hook uses is positive and the downloaded byte count lies between 0 and it, the reported percent is the floor of downloaded * 100 / total and lies in 0..100.\<close>

theorem hook_pct_bounds:
  assumes "0 < hook_total d" and "0 \<le> hook_got d" and "hook_got d \<le> hook_total d"
  shows "hook_pct d = \<lfloor>hook_got d * 100 / hook_total d\<rfloor> \<and> 0 \<le> hook_pct d \<and> hook_pct d \<le> 100"
proof -
  have q0: "0 \<le> hook_got d * 100 / hook_total d" using assms by simp
  have q1: "hook_got d * 100 / hook_total d \<le> 100" using assms by (simp add: divide_le_eq)
  have eq: "hook_pct d = \<lfloor>hook_got d * 100 / hook_total d\<rfloor>"
    using assms q0 by (simp add: hook_pct_def py_trunc_nonneg)
  moreover have "\<lfloor>hook_got d * 100 / hook_total d\<rfloor> \<le> 100"
    using q1 by (metis floor_mono floor_numeral)
  ultimately show ?thesis using q0 by simp
qed

theorem hook_pct_bounds_witness:
  "hook_pct \<lparr>d_status = Some ''downloading'', d_total_bytes = Some 200, d_total_bytes_estimate = None,
      d_downloaded_bytes = Some 50, d_speed = None\<rparr> = 25"
proof -
  let ?d = "\<lparr>d_status = Some ''downloading'', d_total_bytes = Some (200::rat), d_total_bytes_estimate = None,
      d_downloaded_bytes = Some 50, d_speed = None\<rparr>"
  have t: "hook_total ?d = 200" and g: "hook_got ?d = 50"
    by (simp_all add: hook_total_def hook_got_def pysem)
  from hook_pct_bounds [of ?d] t g show ?thesis by simp
qed

text \<open>C11. When neither total_bytes nor total_bytes_estimate is known (missing, None or 0), the hook reports 0 percent, as the spec's open question says to preserve.\<close>

theorem hook_pct_unknown_total:
  assumes "\<not> py_truthy (d_total_bytes d)" and "\<not> py_truthy (d_total_bytes_estimate d)"
  shows "hook_pct d = 0"
  using assms by (simp add: hook_pct_def hook_total_def py_or_def)

theorem hook_pct_unknown_total_witness:
  "hook_pct \<lparr>d_status = Some ''downloading'', d_total_bytes = None, d_total_bytes_estimate = Some 0,
      d_downloaded_bytes = Some 4096, d_speed = None\<rparr> = 0"
  by (rule hook_pct_unknown_total) simp_all

text \<open>C12. The percent is not clamped: whenever the library reports no total_bytes, a positive total_bytes_estimate e and a downloaded count g with 100 g >= 101 e (at least 1 % past the estimate), the hook emits a Downloading payload whose progress is floor(100 g / e), which is above 100, contrary to the spec's "never exceeds 100".\<close>

theorem hook_pct_exceeds_100:
  assumes "d_status d = Some ''downloading''" and "\<not> py_truthy (d_total_bytes d)"
    and "d_total_bytes_estimate d = Some e" and "0 < e"
    and "d_downloaded_bytes d = Some g" and "101 * e \<le> 100 * g"
  shows "hook d = Some (downloading_payload \<lfloor>g * 100 / e\<rfloor> (hook_speed d)) \<and> 100 < \<lfloor>g * 100 / e\<rfloor>"
proof -
  have g: "0 < g" using assms(4,6) by linarith
  have t: "hook_total d = e" and gt: "hook_got d = g"
    using assms(2-5) g by (simp_all add: hook_total_def hook_got_def py_or_def)
  have "101 \<le> g * 100 / e" using assms(4,6) by (simp add: le_divide_eq)
  then have "101 \<le> \<lfloor>g * 100 / e\<rfloor>" by (simp add: le_floor_iff)
  moreover have "hook_pct d = \<lfloor>g * 100 / e\<rfloor>"
    using assms(4) g by (simp add: hook_pct_def t gt py_trunc_nonneg)
  ultimately show ?thesis using assms(1) by (simp add: hook_def)
qed

theorem hook_pct_exceeds_100_witness:
  "hook \<lparr>d_status = Some ''downloading'', d_total_bytes = None, d_total_bytes_estimate = Some 100,
      d_downloaded_bytes = Some 150, d_speed = None\<rparr> = Some (downloading_payload 150 [])"
proof -
  let ?d = "\<lparr>d_status = Some ''downloading'', d_total_bytes = None, d_total_bytes_estimate = Some (100::rat),
      d_downloaded_bytes = Some 150, d_speed = None\<rparr>"
  have "hook ?d = Some (downloading_payload \<lfloor>150 * 100 / (100::rat)\<rfloor> (hook_speed ?d))"
    using hook_pct_exceeds_100 [of ?d 100 150] by simp
  then show ?thesis by (simp add: hook_speed_def)
qed

text \<open>C10. For a fixed positive total, a larger downloaded byte count never gives a smaller percent.\<close>

theorem hook_pct_mono:
  assumes "hook_total d1 = hook_total d2" and "0 < hook_total d1"
    and "0 \<le> hook_got d1" and "hook_got d1 \<le> hook_got d2"
  shows "hook_pct d1 \<le> hook_pct d2"
proof -
  have "hook_got d1 * 100 / hook_total d1 \<le> hook_got d2 * 100 / hook_total d2"
    using assms by (simp add: divide_right_mono)
  moreover have "0 \<le> hook_got d1 * 100 / hook_total d1" "0 \<le> hook_got d2 * 100 / hook_total d2"
    using assms by simp_all
  ultimately show ?thesis
    using assms by (simp add: hook_pct_def py_trunc_nonneg floor_mono)
qed

theorem hook_pct_mono_witness:
  "hook_pct \<lparr>d_status = Some ''downloading'', d_total_bytes = Some 200, d_total_bytes_estimate = None,
      d_downloaded_bytes = Some 50, d_speed = None\<rparr> \<le>
   hook_pct \<lparr>d_status = Some ''downloading'', d_total_bytes = Some 200, d_total_bytes_estimate = None,
      d_downloaded_bytes = Some 120, d_speed = None\<rparr>"
  by (rule hook_pct_mono) (simp_all add: hook_total_def hook_got_def pysem)

end
