(* ===== verification/Worker.thy ===== *)
theory Worker
  imports Progress FormatOptions
begin

text \<open>
  The download worker \<^verbatim>\<open>DLWorker\<close> (src/main.py, lines 36--85).
  \<^item> \<open>dlworker\<close> is the object's state (\<^verbatim>\<open>rows\<close>, \<^verbatim>\<open>opts\<close>, \<^verbatim>\<open>_stop\<close>);
    \<open>dlworker_init\<close> is \<^verbatim>\<open>__init__\<close> and \<open>dlworker_stop\<close> is \<^verbatim>\<open>stop()\<close>.
  \<^item> The extraction library is an oracle: \<open>ydl_run\<close> says what it does for one
    item (whether constructing \<^verbatim>\<open>YoutubeDL(opts)\<close> raises, what the title probe
    \<^verbatim>\<open>extract_info\<close> returns or raises, the progress dictionaries it passes to
    the hook during \<^verbatim>\<open>ydl.download\<close>, and whether that call raises or returns a
    code), and \<open>lib i url\<close> is its behaviour on item \<open>i\<close> of the run.
  \<^item> \<open>run_item\<close> is one iteration of the \<^verbatim>\<open>for\<close> loop (lines 52--84), with the
    two exception handlers; \<open>run_loop\<close> is the loop, where \<open>stopped i\<close> is the
    value of \<^verbatim>\<open>self._stop\<close> read at the check of iteration \<open>i\<close> (line 51), which
    another thread may set at any time; \<open>dl_run\<close> is \<^verbatim>\<open>run()\<close>, the loop
    followed by \<^verbatim>\<open>sig_done\<close>. Signals are the values the two Qt signals carry.
  \<^item> The interleaving of the window's calls of \<^verbatim>\<open>stop()\<close> with the loop is
    the step relation of theory \<open>System\<close>; the root theory shows that every
    finished run there emits \<open>dl_run\<close> for some observation of the flag.
\<close>

section \<open>State, signals and the library oracle\<close>

datatype signal = Update nat payload | Finished

record dlworker =
  w_rows :: "string list"
  w_opts :: ydl_opts
  w_stop :: bool

definition dlworker_init :: "string list \<Rightarrow> ydl_opts \<Rightarrow> dlworker" where
  "dlworker_init rows opts = \<lparr>w_rows = rows, w_opts = opts, w_stop = False\<rparr>"

definition dlworker_stop :: "dlworker \<Rightarrow> dlworker" where
  "dlworker_stop w = w\<lparr>w_stop := True\<rparr>"

record ydl_run =
  y_enter :: "py_exc option"
  y_probe :: "py_exc + string option"
  y_hooks :: "hook_dict list"
  y_download :: "py_exc + int"

type_synonym library = "nat \<Rightarrow> string \<Rightarrow> ydl_run"

section \<open>One iteration\<close>

text \<open>The two handlers of lines 81--84: \<^verbatim>\<open>DownloadError\<close> first, then any
  other exception.\<close>

definition handler :: "py_exc \<Rightarrow> payload" where
  "handler e =
     (case e of
        DownloadError m \<Rightarrow> error_payload (''Download failed: '' @ m)
      | _ \<Rightarrow> error_payload (''An unexpected error occurred: '' @ exc_str e))"

text \<open>Lines 72--77: the probe's exception is swallowed; a title is emitted when
  the returned info has a truthy \<^verbatim>\<open>title\<close>.\<close>

definition probe_signals :: "nat \<Rightarrow> ydl_run \<Rightarrow> signal list" where
  "probe_signals i r =
     (case y_probe r of
        Inr (Some t) \<Rightarrow> if t \<noteq> [] then [Update i (title_payload t)] else []
      | _ \<Rightarrow> [])"

definition hook_signals :: "nat \<Rightarrow> hook_dict list \<Rightarrow> signal list" where
  "hook_signals i ds = concat (map (\<lambda>d. case hook d of None \<Rightarrow> [] | Some p \<Rightarrow> [Update i p]) ds)"

definition run_item :: "library \<Rightarrow> nat \<Rightarrow> string \<Rightarrow> signal list" where
  "run_item lib i url =
     (let r = lib i url in
      Update i starting_payload #
      (case y_enter r of
         Some e \<Rightarrow> [Update i (handler e)]
       | None \<Rightarrow>
           probe_signals i r @ hook_signals i (y_hooks r) @
           (case y_download r of
              Inl e \<Rightarrow> [Update i (handler e)]
            | Inr _ \<Rightarrow> [Update i done_payload])))"

section \<open>The loop and the run\<close>

fun run_loop :: "library \<Rightarrow> (nat \<Rightarrow> bool) \<Rightarrow> nat \<Rightarrow> string list \<Rightarrow> signal list" where
  "run_loop lib stopped i [] = []"
| "run_loop lib stopped i (u # us) =
     (if stopped i then [] else run_item lib i u @ run_loop lib stopped (Suc i) us)"

definition dl_run :: "library \<Rightarrow> (nat \<Rightarrow> bool) \<Rightarrow> dlworker \<Rightarrow> signal list" where
  "dl_run lib stopped w = run_loop lib stopped 0 (w_rows w) @ [Finished]"

section \<open>Reading a signal list\<close>

fun sig_index :: "signal \<Rightarrow> nat option" where
  "sig_index (Update i p) = Some i"
| "sig_index Finished = None"

definition item_events :: "nat \<Rightarrow> signal list \<Rightarrow> payload list" where
  "item_events i out = concat (map (\<lambda>s. case s of Update j p \<Rightarrow> if j = i then [p] else [] | Finished \<Rightarrow> []) out)"

definition update_indices :: "signal list \<Rightarrow> nat list" where
  "update_indices out = List.map_filter sig_index out"

text \<open>The percentages of the Downloading events among a list of payloads.\<close>

definition dl_percents :: "payload list \<Rightarrow> int list" where
  "dl_percents ps = List.map_filter (\<lambda>p. case event_of p of Some (Downloading pct sp) \<Rightarrow> Some pct | _ \<Rightarrow> None) ps"

section \<open>The payloads of one iteration\<close>

text \<open>The payloads of one iteration, in order; every signal of the iteration
  carries its index.\<close>

definition probe_payloads :: "ydl_run \<Rightarrow> payload list" where
  "probe_payloads r =
     (case y_probe r of Inr (Some t) \<Rightarrow> if t \<noteq> [] then [title_payload t] else [] | _ \<Rightarrow> [])"

definition item_payloads :: "library \<Rightarrow> nat \<Rightarrow> string \<Rightarrow> payload list" where
  "item_payloads lib i url =
     (let r = lib i url in
      starting_payload #
      (case y_enter r of
         Some e \<Rightarrow> [handler e]
       | None \<Rightarrow> probe_payloads r @ List.map_filter hook (y_hooks r) @
                 [case y_download r of Inl e \<Rightarrow> handler e | Inr _ \<Rightarrow> done_payload]))"

section \<open>An example run\<close>

text \<open>Three queued URLs: the first downloads with a title and one progress
  report, the second fails in the library with a geo-block after its title probe
  raised, the third fails with another exception after the library finished a
  file.\<close>

definition ex_dict :: hook_dict where
  "ex_dict = \<lparr>d_status = Some ''downloading'', d_total_bytes = Some 200,
     d_total_bytes_estimate = None, d_downloaded_bytes = Some 50, d_speed = None\<rparr>"

definition ex_lib :: library where
  "ex_lib i u =
     (if i = 0 then \<lparr>y_enter = None, y_probe = Inr (Some ''Title''), y_hooks = [ex_dict],
                     y_download = Inr 1\<rparr>
      else if i = 1 then \<lparr>y_enter = None, y_probe = Inl (OtherExc ''timeout''), y_hooks = [],
            y_download = Inl (DownloadError ''geo-blocked'')\<rparr>
      else \<lparr>y_enter = None, y_probe = Inr None,
            y_hooks = [ex_dict\<lparr>d_status := Some ''finished''\<rparr>],
            y_download = Inl (OtherExc ''disk full'')\<rparr>)"

definition ex_worker :: dlworker where
  "ex_worker = dlworker_init [''https://youtu.be/a'', ''https://youtu.be/b'', ''https://youtu.be/c'']
     (make_opts ''downloads'' (Some 1080) ''mkv'')"

text \<open>A library that downloads the video and the audio stream of the
  format \<^verbatim>\<open>bv*+ba\<close> one after the other, reporting each from its own total.\<close>

definition av_video :: hook_dict where
  "av_video = \<lparr>d_status = Some ''downloading'', d_total_bytes = Some 200,
     d_total_bytes_estimate = None, d_downloaded_bytes = Some 200, d_speed = None\<rparr>"

definition av_audio :: hook_dict where
  "av_audio = \<lparr>d_status = Some ''downloading'', d_total_bytes = Some 100,
     d_total_bytes_estimate = None, d_downloaded_bytes = Some 10, d_speed = None\<rparr>"

definition av_finished :: hook_dict where
  "av_finished = \<lparr>d_status = Some ''finished'', d_total_bytes = None,
     d_total_bytes_estimate = None, d_downloaded_bytes = None, d_speed = None\<rparr>"

definition av_lib :: library where
  "av_lib i u = \<lparr>y_enter = None, y_probe = Inr None,
     y_hooks = [av_video, av_finished, av_audio, av_finished], y_download = Inr 0\<rparr>"

section \<open>Lemmas: one iteration\<close>

lemma probe_signals_map: "probe_signals i r = map (Update i) (probe_payloads r)"
  by (simp add: probe_signals_def probe_payloads_def split: sum.split option.split)

lemma hook_signals_map: "hook_signals i ds = map (Update i) (List.map_filter hook ds)"
  by (induction ds) (simp_all add: hook_signals_def map_filter_simps split: option.split)

lemma run_item_map: "run_item lib i u = map (Update i) (item_payloads lib i u)"
  by (simp add: run_item_def item_payloads_def probe_signals_map hook_signals_map Let_def
           split: option.split sum.split)

lemma item_events_append [simp]:
  "item_events i (xs @ ys) = item_events i xs @ item_events i ys"
  by (simp add: item_events_def)

lemma item_events_map_Update [simp]:
  "item_events i (map (Update j) ps) = (if i = j then ps else [])"
  by (induction ps) (simp_all add: item_events_def)

lemma item_events_Finished [simp]: "item_events i [Finished] = []"
  by (simp add: item_events_def)

lemma update_indices_append [simp]:
  "update_indices (xs @ ys) = update_indices xs @ update_indices ys"
  by (simp add: update_indices_def map_filter_def)

lemma update_indices_map_Update [simp]:
  "update_indices (map (Update j) ps) = replicate (length ps) j"
  by (induction ps) (simp_all add: update_indices_def map_filter_simps)

lemma handler_terminal [simp]: "terminal_payload (handler e)"
  by (simp add: handler_def terminal_payload_def split: py_exc.split)

lemma handler_event: "\<exists>m. event_of (handler e) = Some (Error m)"
  by (simp add: handler_def split: py_exc.split)

lemma hook_progress: "hook d = Some p \<Longrightarrow> \<exists>e. event_of p = Some e \<and> is_progress e"
  using hook_cases [of d] by auto

section \<open>Lemmas: the loop\<close>

lemma checks_pass_Suc:
  assumes "\<not> stopped j"
  shows "(\<forall>k. j \<le> k \<and> k \<le> i \<longrightarrow> \<not> stopped k) \<longleftrightarrow> (\<forall>k. Suc j \<le> k \<and> k \<le> i \<longrightarrow> \<not> stopped k)"
proof
  assume "\<forall>k. j \<le> k \<and> k \<le> i \<longrightarrow> \<not> stopped k"
  then show "\<forall>k. Suc j \<le> k \<and> k \<le> i \<longrightarrow> \<not> stopped k" by simp
next
  assume h: "\<forall>k. Suc j \<le> k \<and> k \<le> i \<longrightarrow> \<not> stopped k"
  show "\<forall>k. j \<le> k \<and> k \<le> i \<longrightarrow> \<not> stopped k"
  proof (intro allI impI)
    fix k assume "j \<le> k \<and> k \<le> i"
    then consider "k = j" | "Suc j \<le> k \<and> k \<le> i" by linarith
    then show "\<not> stopped k" using assms h by cases auto
  qed
qed
lemma item_events_run_loop:
  "item_events i (run_loop lib stopped j us) =
     (if j \<le> i \<and> i < j + length us \<and> (\<forall>k. j \<le> k \<and> k \<le> i \<longrightarrow> \<not> stopped k)
      then item_payloads lib i (us ! (i - j)) else [])"
proof (induction us arbitrary: j)
  case Nil
  have "item_events i [] = []" by (simp add: item_events_def)
  then show ?case by auto
next
  case (Cons u us)
  show ?case
  proof (cases "stopped j")
    case True
    then show ?thesis by (auto simp: item_events_def)
  next
    case False
    then have run: "run_loop lib stopped j (u # us) = map (Update j) (item_payloads lib j u) @
        run_loop lib stopped (Suc j) us"
      by (simp add: run_item_map)
    show ?thesis
    proof (cases "i = j")
      case True
      have "item_events i (run_loop lib stopped (Suc j) us) = []"
        using Cons.IH [of "Suc j"] True by simp
      moreover have "\<forall>k. j \<le> k \<and> k \<le> j \<longrightarrow> \<not> stopped k"
        using False le_antisym by blast
      ultimately show ?thesis using True False by (simp add: run_item_map)
    next
      case i: False
      have "j \<le> i \<longleftrightarrow> Suc j \<le> i" using i by arith
      moreover have "i < j + length (u # us) \<longleftrightarrow> i < Suc j + length us" by simp
      ultimately have c: "(j \<le> i \<and> i < j + length (u # us) \<and> (\<forall>k. j \<le> k \<and> k \<le> i \<longrightarrow> \<not> stopped k)) \<longleftrightarrow>
               (Suc j \<le> i \<and> i < Suc j + length us \<and> (\<forall>k. Suc j \<le> k \<and> k \<le> i \<longrightarrow> \<not> stopped k))"
        using checks_pass_Suc [of stopped j i, OF False] by blast
      have lhs: "item_events i (run_loop lib stopped j (u # us)) = item_events i (run_loop lib stopped (Suc j) us)"
        using False i by (simp add: run_item_map)
      have nth: "Suc j \<le> i \<Longrightarrow> (u # us) ! (i - j) = us ! (i - Suc j)"
        by (simp add: nth_Cons')
      show ?thesis
        unfolding lhs Cons.IH c by (rule if_cong [OF refl]) (simp_all add: nth)
    qed
  qed
qed
lemma update_indices_run_loop:
  "sorted (update_indices (run_loop lib stopped j us)) \<and>
   (\<forall>k \<in> set (update_indices (run_loop lib stopped j us)). j \<le> k \<and> k < j + length us)"
proof (induction us arbitrary: j)
  case Nil
  then show ?case by (simp add: update_indices_def)
next
  case (Cons u us)
  show ?case
  proof (cases "stopped j")
    case True
    then show ?thesis by (simp add: update_indices_def)
  next
    case False
    let ?rest = "update_indices (run_loop lib stopped (Suc j) us)"
    from Cons.IH [of "Suc j"] have "sorted ?rest" and rest: "\<forall>k \<in> set ?rest. Suc j \<le> k \<and> k < Suc j + length us"
      by simp_all
    then have "sorted (replicate (length (item_payloads lib j u)) j @ ?rest)"
      by (auto simp: sorted_append)
    with False rest show ?thesis by (auto simp: run_item_map)
  qed
qed

lemma Finished_notin_run_loop: "Finished \<notin> set (run_loop lib stopped j us)"
  by (induction us arbitrary: j) (auto simp: run_item_map)

lemma item_events_dl_run:
  "item_events i (dl_run lib stopped w) =
     (if i < length (w_rows w) \<and> (\<forall>k \<le> i. \<not> stopped k)
      then item_payloads lib i (w_rows w ! i) else [])"
proof -
  have c: "(0 \<le> i \<and> i < 0 + length (w_rows w) \<and> (\<forall>k. 0 \<le> k \<and> k \<le> i \<longrightarrow> \<not> stopped k)) \<longleftrightarrow>
        (i < length (w_rows w) \<and> (\<forall>k \<le> i. \<not> stopped k))"
    by simp
  show ?thesis
    unfolding dl_run_def item_events_append item_events_run_loop item_events_Finished append_Nil2
      diff_zero c ..
qed
section \<open>Lemmas: the items of a run\<close>

lemma those_append:
  "those (xs @ ys) = (case those xs of None \<Rightarrow> None | Some a \<Rightarrow> map_option ((@) a) (those ys))"
proof (cases "those ys")
  case None
  then show ?thesis by (induction xs) (auto split: option.split)
next
  case (Some b)
  then show ?thesis by (induction xs) (auto split: option.split)
qed

lemma terminal_payload_simps [simp]:
  "\<not> terminal_payload starting_payload" "\<not> terminal_payload (title_payload t)"
  "terminal_payload done_payload" "\<not> terminal_payload merging_payload"
  "\<not> terminal_payload (downloading_payload pct sp)"
  by (simp_all add: terminal_payload_def)

lemma hook_not_terminal: "hook d = Some p \<Longrightarrow> \<not> terminal_payload p"
  using hook_cases [of d] by auto

lemma map_filter_hook_not_terminal: "filter terminal_payload (List.map_filter hook ds) = []"
  by (induction ds) (auto simp: map_filter_simps hook_not_terminal split: option.split)

lemma probe_payloads_not_terminal: "filter terminal_payload (probe_payloads r) = []"
  by (simp add: probe_payloads_def split: sum.split option.split)

lemma item_payloads_one_terminal:
  "length (filter terminal_payload (item_payloads lib i u)) = 1 \<and>
   terminal_payload (last (item_payloads lib i u))"
  by (simp add: item_payloads_def Let_def map_filter_hook_not_terminal probe_payloads_not_terminal
      split: option.split sum.split)

lemma map_filter_hook_events:
  "\<exists>es. those (map event_of (List.map_filter hook ds)) = Some es \<and> list_all is_progress es"
proof (induction ds)
  case Nil
  then show ?case by simp
next
  case (Cons d ds)
  then obtain es where es: "those (map event_of (List.map_filter hook ds)) = Some es"
    and p: "list_all is_progress es" by blast
  show ?case
  proof (cases "hook d")
    case None
    with es p show ?thesis by (simp add: map_filter_simps)
  next
    case (Some q)
    with hook_progress obtain e where "event_of q = Some e" "is_progress e" by blast
    with Some es p show ?thesis by (simp add: map_filter_simps)
  qed
qed

lemma final_event:
  "\<exists>t. event_of (case y_download r of Inl e \<Rightarrow> handler e | Inr _ \<Rightarrow> done_payload) = Some t \<and> is_terminal t"
proof (cases "y_download r")
  case (Inl e)
  obtain m where "event_of (handler e) = Some (Error m)" using handler_event by blast
  with Inl show ?thesis by simp
qed simp

lemma item_payloads_entered:
  "y_enter (lib i u) = None \<Longrightarrow>
   item_payloads lib i u = [starting_payload] @ probe_payloads (lib i u) @ List.map_filter hook (y_hooks (lib i u)) @
     [case y_download (lib i u) of Inl e \<Rightarrow> handler e | Inr _ \<Rightarrow> done_payload]"
  by (simp add: item_payloads_def Let_def)

lemma item_payloads_protocol: "payload_protocol (item_payloads lib i u)"
proof (cases "y_enter (lib i u)")
  case (Some e)
  obtain m where "event_of (handler e) = Some (Error m)" using handler_event by blast
  with Some show ?thesis by (simp add: item_payloads_def payload_protocol_def)
next
  case None
  let ?r = "lib i u"
  obtain es where es: "those (map event_of (List.map_filter hook (y_hooks ?r))) = Some es"
    and p: "list_all is_progress es" using map_filter_hook_events by blast
  obtain t where t: "event_of (case y_download ?r of Inl e \<Rightarrow> handler e | Inr _ \<Rightarrow> done_payload) = Some t"
    "is_terminal t" using final_event by blast
  have body: "body_ok (es @ [t])" using p t(2) by (rule body_ok_snoc)
  have notitle: "\<forall>t' es'. es @ [t] \<noteq> TitleResolved t' # es'"
    using p t(2) by (cases es) auto
  have "those (map event_of (probe_payloads ?r)) = Some [] \<or>
        (\<exists>tt. those (map event_of (probe_payloads ?r)) = Some [TitleResolved tt])"
    by (simp add: probe_payloads_def split: sum.split option.split)
  then show ?thesis
  proof
    assume "those (map event_of (probe_payloads ?r)) = Some []"
    with None es t body notitle show ?thesis
      by (simp add: item_payloads_entered payload_protocol_def those_append item_protocol_no_title)
  next
    assume "\<exists>tt. those (map event_of (probe_payloads ?r)) = Some [TitleResolved tt]"
    then obtain tt where "those (map event_of (probe_payloads ?r)) = Some [TitleResolved tt]" ..
    with None es t body show ?thesis
      by (simp add: item_payloads_entered payload_protocol_def those_append)
  qed
qed

lemma dl_percents_append [simp]: "dl_percents (xs @ ys) = dl_percents xs @ dl_percents ys"
  by (simp add: dl_percents_def map_filter_def)

lemma dl_percents_handler [simp]: "dl_percents [handler e] = []"
proof -
  obtain m where "event_of (handler e) = Some (Error m)" using handler_event by blast
  then show ?thesis by (simp add: dl_percents_def map_filter_simps)
qed

lemma dl_percents_hooks:
  "dl_percents (List.map_filter hook ds) = map hook_pct (filter (\<lambda>d. d_status d = Some ''downloading'') ds)"
  by (induction ds) (auto simp: dl_percents_def map_filter_simps hook_def split: option.split)

lemma dl_percents_item_payloads:
  assumes "y_enter (lib i u) = None"
  shows "dl_percents (item_payloads lib i u) =
           map hook_pct (filter (\<lambda>d. d_status d = Some ''downloading'') (y_hooks (lib i u)))"
proof -
  have "dl_percents [case y_download (lib i u) of Inl e \<Rightarrow> handler e | Inr _ \<Rightarrow> done_payload] = []"
    by (simp split: sum.split) (simp add: dl_percents_def map_filter_simps)
  moreover have "dl_percents (probe_payloads (lib i u)) = []"
    by (simp add: dl_percents_def probe_payloads_def map_filter_simps split: sum.split option.split)
  moreover have "dl_percents [starting_payload] = []" by (simp add: dl_percents_def map_filter_simps)
  ultimately show ?thesis using item_payloads_entered [of lib i u, OF assms]
    by (simp only: dl_percents_append dl_percents_hooks) simp
qed

section \<open>Properties of the worker\<close>

lemma ex_worker_rows [simp]: "w_rows ex_worker = [''https://youtu.be/a'', ''https://youtu.be/b'', ''https://youtu.be/c'']"
  by (simp add: ex_worker_def dlworker_init_def)

text \<open>C1. A run with no stop request gives every queued item exactly one terminal event (Done or Error), and it is the last event the item receives.\<close>

theorem run_each_item_one_terminal:
  assumes "i < length (w_rows w)"
  shows "length (filter terminal_payload (item_events i (dl_run lib (\<lambda>_. False) w))) = 1 \<and>
         terminal_payload (last (item_events i (dl_run lib (\<lambda>_. False) w)))"
  using assms item_payloads_one_terminal by (simp add: item_events_dl_run)

theorem run_each_item_one_terminal_witness:
  "1 < length (w_rows ex_worker) \<and>
   length (filter terminal_payload (item_events 1 (dl_run ex_lib (\<lambda>_. False) ex_worker))) = 1 \<and>
   terminal_payload (last (item_events 1 (dl_run ex_lib (\<lambda>_. False) ex_worker)))"
  using run_each_item_one_terminal [of 1 ex_worker ex_lib] by simp

text \<open>C2. Refinement of the event protocol: the payloads the worker emits for an item it processes read, under the abstraction event_of, as Starting, at most one TitleResolved, a sequence of Downloading and Merging events, and one terminal event.\<close>

theorem run_items_follow_protocol:
  assumes "i < length (w_rows w)" and "\<forall>k \<le> i. \<not> stopped k"
  shows "payload_protocol (item_events i (dl_run lib stopped w))"
  using assms item_payloads_protocol by (simp add: item_events_dl_run)

theorem run_items_follow_protocol_witness:
  "0 < length (w_rows ex_worker) \<and>
   payload_protocol (item_events 0 (dl_run ex_lib (\<lambda>_. False) ex_worker))"
  using run_items_follow_protocol [of 0 ex_worker "\<lambda>_. False" ex_lib] by simp

text \<open>C3. Ordering: the item indices of the update signals of a run never decrease (all events of item i precede those of item i+1), every index is a queued row, and the run-finished signal is emitted exactly once, last.\<close>

theorem run_signal_order:
  "sorted (update_indices (dl_run lib stopped w)) \<and>
   (\<forall>k \<in> set (update_indices (dl_run lib stopped w)). k < length (w_rows w)) \<and>
   (\<exists>xs. dl_run lib stopped w = xs @ [Finished] \<and> Finished \<notin> set xs)"
proof -
  have u: "update_indices [Finished] = []" by (simp add: update_indices_def map_filter_def)
  from update_indices_run_loop [of lib stopped 0 "w_rows w"] show ?thesis
    by (auto simp: dl_run_def u Finished_notin_run_loop)
qed

theorem run_signal_order_witness:
  "sorted (update_indices (dl_run ex_lib (\<lambda>_. False) ex_worker)) \<and>
   last (dl_run ex_lib (\<lambda>_. False) ex_worker) = Finished"
  using run_signal_order [of ex_lib "\<lambda>_. False" ex_worker] by auto

text \<open>C4. Cooperative stop: if the stop flag is first seen set at the check before item k, the items from k on receive no event at all, and every earlier item receives exactly one terminal event.\<close>

theorem run_stop_at:
  assumes "stopped k" and "\<forall>j < k. \<not> stopped j"
  shows "(\<forall>i \<ge> k. item_events i (dl_run lib stopped w) = []) \<and>
         (\<forall>i < min k (length (w_rows w)).
            length (filter terminal_payload (item_events i (dl_run lib stopped w))) = 1)"
proof -
  have "\<forall>i \<ge> k. \<not> (\<forall>j \<le> i. \<not> stopped j)" using assms(1) by blast
  moreover have "\<forall>i < k. \<forall>j \<le> i. \<not> stopped j" using assms(2) by auto
  ultimately show ?thesis
    using item_payloads_one_terminal by (auto simp: item_events_dl_run)
qed

theorem run_stop_at_witness:
  "item_events 2 (dl_run ex_lib (\<lambda>j. 1 \<le> j) ex_worker) = [] \<and>
   length (filter terminal_payload (item_events 0 (dl_run ex_lib (\<lambda>j. 1 \<le> j) ex_worker))) = 1"
  using run_stop_at [of "\<lambda>j. 1 \<le> j" 1 ex_lib ex_worker] by simp

text \<open>C5. An item whose download raises the library's DownloadError ends with an Error payload whose message is "Download failed: " followed by the error text; the run goes on.\<close>

theorem run_download_error_message:
  assumes "i < length (w_rows w)" and "\<forall>k \<le> i. \<not> stopped k"
    and "y_enter (lib i (w_rows w ! i)) = None"
    and "y_download (lib i (w_rows w ! i)) = Inl (DownloadError m)"
  shows "last (item_events i (dl_run lib stopped w)) = error_payload (''Download failed: '' @ m)"
  using assms by (simp add: item_events_dl_run item_payloads_def handler_def Let_def)

theorem run_download_error_message_witness:
  "1 < length (w_rows ex_worker) \<and>
   y_enter (ex_lib 1 (w_rows ex_worker ! 1)) = None \<and>
   y_download (ex_lib 1 (w_rows ex_worker ! 1)) = Inl (DownloadError ''geo-blocked'') \<and>
   last (item_events 1 (dl_run ex_lib (\<lambda>_. False) ex_worker)) =
     error_payload (''Download failed: '' @ ''geo-blocked'')"
  using run_download_error_message [of 1 ex_worker "\<lambda>_. False" ex_lib "''geo-blocked''"]
  by (simp add: ex_lib_def)

text \<open>C6. An item whose download raises any other exception ends with an Error payload whose message is "An unexpected error occurred: " followed by the exception text.\<close>

theorem run_unexpected_error_message:
  assumes "i < length (w_rows w)" and "\<forall>k \<le> i. \<not> stopped k"
    and "y_enter (lib i (w_rows w ! i)) = None"
    and "y_download (lib i (w_rows w ! i)) = Inl (OtherExc m)"
  shows "last (item_events i (dl_run lib stopped w)) =
           error_payload (''An unexpected error occurred: '' @ m)"
  using assms by (simp add: item_events_dl_run item_payloads_def handler_def exc_str_def Let_def)

theorem run_unexpected_error_message_witness:
  "2 < length (w_rows ex_worker) \<and>
   y_enter (ex_lib 2 (w_rows ex_worker ! 2)) = None \<and>
   y_download (ex_lib 2 (w_rows ex_worker ! 2)) = Inl (OtherExc ''disk full'') \<and>
   last (item_events 2 (dl_run ex_lib (\<lambda>_. False) ex_worker)) =
     error_payload (''An unexpected error occurred: '' @ ''disk full'')"
  using run_unexpected_error_message [of 2 ex_worker "\<lambda>_. False" ex_lib "''disk full''"]
  by (simp add: ex_lib_def)

text \<open>C7. A failing title probe is harmless: a run in which every probe raises emits exactly the signals of the run in which every probe returns no title.\<close>

theorem run_probe_failure_harmless:
  "dl_run (\<lambda>j v. (lib j v)\<lparr>y_probe := Inl (e j v)\<rparr>) stopped w =
   dl_run (\<lambda>j v. (lib j v)\<lparr>y_probe := Inr None\<rparr>) stopped w"
proof -
  have "run_item (\<lambda>j v. (lib j v)\<lparr>y_probe := Inl (e j v)\<rparr>) i u =
        run_item (\<lambda>j v. (lib j v)\<lparr>y_probe := Inr None\<rparr>) i u" for i u
    by (simp add: run_item_map item_payloads_def probe_payloads_def Let_def split: option.split)
  moreover have "run_loop (\<lambda>j v. (lib j v)\<lparr>y_probe := Inl (e j v)\<rparr>) stopped i us =
        run_loop (\<lambda>j v. (lib j v)\<lparr>y_probe := Inr None\<rparr>) stopped i us" for i us
    by (induction us arbitrary: i) (simp_all add: calculation)
  ultimately show ?thesis by (simp add: dl_run_def)
qed

text \<open>C8. The worker marks an item Done whenever ydl.download returns, whatever return code it returns: a download the library reports as failed through its return code (as it does for errors it ignores under ignoreerrors) is shown as Done.\<close>

theorem run_return_code_ignored:
  assumes "i < length (w_rows w)" and "\<forall>k \<le> i. \<not> stopped k"
    and "y_enter (lib i (w_rows w ! i)) = None"
    and "y_download (lib i (w_rows w ! i)) = Inr rc"
  shows "last (item_events i (dl_run lib stopped w)) = done_payload"
  using assms by (simp add: item_events_dl_run item_payloads_def Let_def)

theorem run_return_code_ignored_witness:
  "0 < length (w_rows ex_worker) \<and>
   y_enter (ex_lib 0 (w_rows ex_worker ! 0)) = None \<and>
   y_download (ex_lib 0 (w_rows ex_worker ! 0)) = Inr 1 \<and>
   last (item_events 0 (dl_run ex_lib (\<lambda>_. False) ex_worker)) = done_payload"
  using run_return_code_ignored [of 0 ex_worker "\<lambda>_. False" ex_lib 1]
  by (simp add: ex_lib_def)

text \<open>C13. The worker forwards the percentages of the library unchanged: the Downloading percentages of an item are exactly the hook percentages of the dictionaries with status "downloading", in order. With the default selector bv*+ba the library downloads video and audio separately, so the percentage of an item drops back (100 then 10) and a Merging event precedes further Downloading events, although the spec says percentages never decrease within an item.\<close>

theorem run_percents_follow_library:
  assumes "i < length (w_rows w)" and "\<forall>k \<le> i. \<not> stopped k"
    and "y_enter (lib i (w_rows w ! i)) = None"
  shows "dl_percents (item_events i (dl_run lib stopped w)) =
           map hook_pct (filter (\<lambda>d. d_status d = Some ''downloading'') (y_hooks (lib i (w_rows w ! i))))"
  using assms by (simp add: item_events_dl_run dl_percents_item_payloads)

theorem run_percents_follow_library_witness:
  "dl_percents (item_events 0 (dl_run av_lib (\<lambda>_. False) ex_worker)) = [100, 10]"
proof -
  have "dl_percents (item_events 0 (dl_run av_lib (\<lambda>_. False) ex_worker)) =
          map hook_pct (filter (\<lambda>d. d_status d = Some ''downloading'') (y_hooks (av_lib 0 (w_rows ex_worker ! 0))))"
    by (rule run_percents_follow_library) (simp_all add: av_lib_def)
  also have "\<dots> = [100, 10]"
    by (simp add: av_lib_def av_video_def av_audio_def av_finished_def hook_pct_def hook_total_def hook_got_def
                  py_num_def py_or_def py_truthy_def py_trunc_def)
  finally show ?thesis .
qed

end
