(* ===== verification/Window.thy ===== *)
theory Window
  imports Worker
begin

text \<open>
  The main window \<^verbatim>\<open>Main\<close> (src/main.py, lines 87--226): the queue table, the
  option widgets, the Start/Stop buttons, the worker reference and the stored
  preferences, and its slots as functions from the window state to the new state
  and the exception the slot raised, if any (PySide prints an exception raised in
  a slot and the event loop goes on, so the effects before the raise persist).
  The Qt behaviour the slots rely on is written out where it matters:
  \<^item> the table has the column count it was created with; \<^verbatim>\<open>setItem\<close> on a column
    outside it is ignored, and \<^verbatim>\<open>item(row, col)\<close> there returns \<^verbatim>\<open>None\<close>;
    \<^verbatim>\<open>setHorizontalHeaderLabels\<close> labels existing columns only;
  \<^item> a progress bar (range 0..100) ignores a value outside its range;
  \<^item> a combo box set to an index outside its items has current index \<open>-1\<close>;
  \<^item> \<^verbatim>\<open>QSettings\<close> is a map from keys to stored values.
  File dialogs, message boxes, layout and the folder creation are not modelled;
  the clock is an argument (the formatted timestamp of \<^verbatim>\<open>_add_url\<close>) and the
  presence of FFmpeg only decides a warning dialog, which changes no state.
\<close>

section \<open>State\<close>

record row_view =
  r_url :: string
  r_title :: string
  r_date :: string
  r_bar :: int
  r_status :: "string option"

datatype setting = SStr string | SInt int

type_synonym settings = "string \<Rightarrow> setting option"

record window =
  tbl_cols :: nat
  tbl_labels :: "string list"
  tbl_rows :: "row_view list"
  url_input :: string
  out_dir :: string
  max_res_idx :: int
  fmt_idx :: int
  worker :: "dlworker option"
  worker_running :: bool
  btn_start_enabled :: bool
  btn_stop_enabled :: bool
  store :: settings

section \<open>Qt widget behaviour\<close>

definition status_col :: nat where
  "status_col = 4"

text \<open>The item a new row holds in column \<open>c\<close> after \<^verbatim>\<open>setItem(r, c, item)\<close>.\<close>

definition new_cell :: "nat \<Rightarrow> nat \<Rightarrow> string \<Rightarrow> string option" where
  "new_cell cols c v = (if c < cols then Some v else None)"

definition bar_set_value :: "int \<Rightarrow> int \<Rightarrow> int" where
  "bar_set_value old v = (if 0 \<le> v \<and> v \<le> 100 then v else old)"

text \<open>\<^verbatim>\<open>setHorizontalHeaderLabels\<close> labels the existing columns only: labels
  beyond the column count are dropped.\<close>

definition header_labels :: "nat \<Rightarrow> string list \<Rightarrow> string list" where
  "header_labels n labels = take n labels"

definition combo_set :: "string list \<Rightarrow> int \<Rightarrow> int" where
  "combo_set items i = (if 0 \<le> i \<and> nat i < length items then i else -1)"

definition none_attr :: py_exc where
  "none_attr = AttributeError (py_repr ''NoneType'' @ '' object has no attribute '' @ py_repr ''setText'')"

section \<open>Construction\<close>

text \<open>\<^verbatim>\<open>__init__\<close> and \<^verbatim>\<open>_build_ui\<close> (lines 88--134) before \<^verbatim>\<open>_restore\<close>:
  \<^verbatim>\<open>QTableWidget(0, 4)\<close> and its header labels, the default folder, both
  combos at their first item,
  no worker, Stop disabled.\<close>

definition window_built :: "string \<Rightarrow> settings \<Rightarrow> window" where
  "window_built cwd st =
     \<lparr> tbl_cols = 4,
       tbl_labels = header_labels 4 [''URL'', ''Title'', ''Date Added'', ''Progress'', ''Status''],
       tbl_rows = [], url_input = [], out_dir = path_div cwd ''downloads'',
       max_res_idx = 0, fmt_idx = 0, worker = None, worker_running = False,
       btn_start_enabled = True, btn_stop_enabled = False, store = st \<rparr>"

text \<open>\<^verbatim>\<open>int(self.settings.value(key, 0))\<close>\<close>

definition setting_int :: "settings \<Rightarrow> string \<Rightarrow> py_exc + int" where
  "setting_int st k = (case st k of None \<Rightarrow> Inr 0 | Some (SInt i) \<Rightarrow> Inr i | Some (SStr s) \<Rightarrow> py_int s)"

definition setting_str :: "settings \<Rightarrow> string \<Rightarrow> string \<Rightarrow> py_exc + string" where
  "setting_str st k dflt =
     (case st k of
        Some (SStr s) \<Rightarrow> Inr s
      | Some (SInt i) \<Rightarrow>
          Inl (TypeError ([CHR 0x27] @ ''PySide6.QtWidgets.QLineEdit.setText'' @ [CHR 0x27] @
                          '' called with wrong argument types:'' @
                          [CHR 0x0A] @ ''  PySide6.QtWidgets.QLineEdit.setText(int)'' @ [CHR 0x0A] @
                          ''Supported signatures:'' @ [CHR 0x0A] @ ''  PySide6.QtWidgets.QLineEdit.setText(str)''))
      | None \<Rightarrow> Inr dflt)"

text \<open>\<^verbatim>\<open>_restore\<close> (lines 217--220), in statement order; each statement
  that raises leaves the widgets it did not reach unchanged.\<close>

definition restore :: "window \<Rightarrow> window \<times> py_exc option" where
  "restore w =
     (case setting_str (store w) ''out_dir'' (out_dir w) of
        Inl e \<Rightarrow> (w, Some e)
      | Inr d \<Rightarrow>
     (let w1 = w\<lparr>out_dir := d\<rparr> in
      case setting_int (store w1) ''max_res'' of
        Inl e \<Rightarrow> (w1, Some e)
      | Inr i \<Rightarrow>
          (let w2 = w1\<lparr>max_res_idx := combo_set max_res_items i\<rparr> in
           case setting_int (store w2) ''fmt'' of
             Inl e \<Rightarrow> (w2, Some e)
           | Inr j \<Rightarrow> (w2\<lparr>fmt_idx := combo_set format_items j\<rparr>, None))))"

text \<open>\<^verbatim>\<open>closeEvent\<close> (lines 222--226).\<close>

definition close_event :: "window \<Rightarrow> window" where
  "close_event w =
     w\<lparr>store := (store w)(''out_dir'' \<mapsto> SStr (out_dir w), ''max_res'' \<mapsto> SInt (max_res_idx w),
                           ''fmt'' \<mapsto> SInt (fmt_idx w))\<rparr>"

section \<open>Slots\<close>

text \<open>\<^verbatim>\<open>_add_url\<close> (lines 136--159); \<open>now\<close> is the formatted timestamp.\<close>

definition add_url :: "string \<Rightarrow> string \<Rightarrow> window \<Rightarrow> window" where
  "add_url url now w =
     (if url = [] then w
      else w\<lparr>tbl_rows := tbl_rows w @
               [\<lparr> r_url = url, r_title = [], r_date = now, r_bar = 0,
                  r_status = new_cell (tbl_cols w) status_col ''Queued'' \<rparr>],
             url_input := []\<rparr>)"

text \<open>The Add button (line 106).\<close>

definition click_add :: "string \<Rightarrow> window \<Rightarrow> window" where
  "click_add now w = add_url (py_strip (url_input w)) now w"

text \<open>\<^verbatim>\<open>_choose_outdir\<close> (lines 161--163): \<open>d\<close> is the folder the dialog
  returns, the empty string when it is cancelled.\<close>

definition choose_outdir :: "string \<Rightarrow> window \<Rightarrow> window" where
  "choose_outdir d w = (if d \<noteq> [] then w\<lparr>out_dir := d\<rparr> else w)"

text \<open>What the user does to the input widgets: typing into the URL or the
  folder line edit, the Browse button (line 120), and choosing an item of a
  combo box, which only offers its own items.\<close>

datatype ui_edit = TypeUrl string | TypeDir string | ChooseDir string | SelectRes nat | SelectFmt nat

definition apply_edit :: "ui_edit \<Rightarrow> window \<Rightarrow> window" where
  "apply_edit e w =
     (case e of
        TypeUrl t \<Rightarrow> w\<lparr>url_input := t\<rparr>
      | TypeDir t \<Rightarrow> w\<lparr>out_dir := t\<rparr>
      | ChooseDir d \<Rightarrow> choose_outdir d w
      | SelectRes i \<Rightarrow> if i < length max_res_items then w\<lparr>max_res_idx := int i\<rparr> else w
      | SelectFmt i \<Rightarrow> if i < length format_items then w\<lparr>fmt_idx := int i\<rparr> else w)"

text \<open>\<^verbatim>\<open>_start\<close> (lines 165--196): the two guards, \<^verbatim>\<open>outdir.mkdir\<close> (which
  may raise: \<open>mk p\<close> is what creating folder \<open>p\<close> raises, if anything), the
  options (which may raise), the row snapshot, the new worker, the buttons,
  and \<^verbatim>\<open>worker.start()\<close>. The FFmpeg warning box (lines 194--195) changes no
  state; it is \<open>ffmpeg_warning\<close> of theory \<open>Entry\<close>.\<close>

definition start :: "(string \<Rightarrow> py_exc option) \<Rightarrow> window \<Rightarrow> window \<times> py_exc option" where
  "start mk w =
     (if tbl_rows w = [] then (w, None)
      else if worker w \<noteq> None \<and> worker_running w then (w, None)
      else case mk (out_dir w) of
        Some e \<Rightarrow> (w, Some e)
      | None \<Rightarrow>
          (case start_opts (out_dir w) (max_res_idx w) (fmt_idx w) of
             Inl e \<Rightarrow> (w, Some e)
           | Inr opts \<Rightarrow>
               (w\<lparr>worker := Some (dlworker_init (map r_url (tbl_rows w)) opts),
                  btn_start_enabled := False, btn_stop_enabled := True,
                  worker_running := True\<rparr>, None)))"

text \<open>\<^verbatim>\<open>_stop\<close> (lines 198--200).\<close>

definition stop :: "window \<Rightarrow> window" where
  "stop w =
     (case worker w of
        Some wk \<Rightarrow> if worker_running w then w\<lparr>worker := Some (dlworker_stop wk)\<rparr> else w
      | None \<Rightarrow> w)"

text \<open>\<^verbatim>\<open>_on_update\<close> (lines 202--211), one statement at a time.\<close>

definition upd_row :: "nat \<Rightarrow> (row_view \<Rightarrow> row_view) \<Rightarrow> window \<Rightarrow> window" where
  "upd_row r f w = w\<lparr>tbl_rows := (tbl_rows w)[r := f (tbl_rows w ! r)]\<rparr>"

definition set_status_text :: "nat \<Rightarrow> string \<Rightarrow> window \<Rightarrow> window \<times> py_exc option" where
  "set_status_text r txt w =
     (if r_status (tbl_rows w ! r) = None then (w, Some none_attr)
      else (upd_row r (\<lambda>rv. rv\<lparr>r_status := Some txt\<rparr>) w, None))"

definition on_update :: "nat \<Rightarrow> payload \<Rightarrow> window \<Rightarrow> window \<times> py_exc option" where
  "on_update r p w =
     (if length (tbl_rows w) \<le> r then (w, None)
      else
        let w1 = (case p_title p of
                    Some t \<Rightarrow> upd_row r (\<lambda>rv. rv\<lparr>r_title := t\<rparr>) w
                  | None \<Rightarrow> w);
            w2 = (case p_progress p of
                    Some v \<Rightarrow> upd_row r (\<lambda>rv. rv\<lparr>r_bar := bar_set_value (r_bar rv) v\<rparr>) w1
                  | None \<Rightarrow> w1)
        in case p_status p of
             Some st \<Rightarrow>
               (case set_status_text r st w2 of
                  (w3, Some e) \<Rightarrow> (w3, Some e)
                | (w3, None) \<Rightarrow>
                    (case p_error p of
                       Some m \<Rightarrow> if m \<noteq> [] then set_status_text r m w3 else (w3, None)
                     | None \<Rightarrow> (w3, None)))
           | None \<Rightarrow>
               (case p_error p of
                  Some m \<Rightarrow> if m \<noteq> [] then set_status_text r m w2 else (w2, None)
                | None \<Rightarrow> (w2, None)))"

text \<open>\<^verbatim>\<open>_on_done\<close> (lines 213--215).\<close>

definition on_done :: "window \<Rightarrow> window" where
  "on_done w = w\<lparr>btn_start_enabled := True, btn_stop_enabled := False\<rparr>"

text \<open>A worker signal delivered to the window's thread (the connections of
  lines 191--192).\<close>

text \<open>The worker thread ends after \<^verbatim>\<open>run()\<close> returns; \<^verbatim>\<open>isRunning()\<close>
  is false from then on.\<close>

definition thread_finished :: "window \<Rightarrow> window" where
  "thread_finished w = w\<lparr>worker_running := False\<rparr>"

fun deliver :: "signal \<Rightarrow> window \<Rightarrow> window \<times> py_exc option" where
  "deliver (Update r p) w = on_update r p w"
| "deliver Finished w = (on_done w, None)"

section \<open>The table invariant\<close>

text \<open>Progress bars hold values in 0..100, and a table with no status column
  has no status cells.\<close>

definition table_inv :: "window \<Rightarrow> bool" where
  "table_inv w \<longleftrightarrow>
     (\<forall>rv \<in> set (tbl_rows w). 0 \<le> r_bar rv \<and> r_bar rv \<le> 100 \<and>
        (tbl_cols w \<le> status_col \<longrightarrow> r_status rv = None))"

section \<open>Lemmas\<close>

lemma apply_edit_fields [simp]:
  "tbl_rows (apply_edit e w) = tbl_rows w" "tbl_cols (apply_edit e w) = tbl_cols w"
  "worker (apply_edit e w) = worker w" "worker_running (apply_edit e w) = worker_running w"
  "btn_start_enabled (apply_edit e w) = btn_start_enabled w"
  "btn_stop_enabled (apply_edit e w) = btn_stop_enabled w" "store (apply_edit e w) = store w"
  by (simp_all add: apply_edit_def choose_outdir_def split: ui_edit.split)

lemma upd_row_fields [simp]:
  "tbl_cols (upd_row r f w) = tbl_cols w" "length (tbl_rows (upd_row r f w)) = length (tbl_rows w)"
  "worker (upd_row r f w) = worker w" "worker_running (upd_row r f w) = worker_running w"
  "btn_start_enabled (upd_row r f w) = btn_start_enabled w"
  "btn_stop_enabled (upd_row r f w) = btn_stop_enabled w"
  by (simp_all add: upd_row_def)

lemma table_inv_upd_row:
  assumes "table_inv w" and "r < length (tbl_rows w)"
    and "0 \<le> r_bar (f (tbl_rows w ! r)) \<and> r_bar (f (tbl_rows w ! r)) \<le> 100"
    and "r_status (f (tbl_rows w ! r)) = r_status (tbl_rows w ! r)"
  shows "table_inv (upd_row r f w)"
  using assms by (auto simp: table_inv_def upd_row_def dest!: set_update_subset_insert [THEN subsetD])

lemma bar_set_value_range:
  "0 \<le> old \<Longrightarrow> old \<le> 100 \<Longrightarrow> 0 \<le> bar_set_value old v \<and> bar_set_value old v \<le> 100"
  by (simp add: bar_set_value_def)

lemma set_status_text_none:
  "r_status (tbl_rows w ! r) = None \<Longrightarrow> set_status_text r txt w = (w, Some none_attr)"
  by (simp add: set_status_text_def)


lemma table_inv_title:
  "table_inv w \<Longrightarrow> r < length (tbl_rows w) \<Longrightarrow> table_inv (upd_row r (\<lambda>rv. rv\<lparr>r_title := t\<rparr>) w)"
  by (rule table_inv_upd_row) (auto simp: table_inv_def)

lemma table_inv_bar:
  "table_inv w \<Longrightarrow> r < length (tbl_rows w) \<Longrightarrow>
   table_inv (upd_row r (\<lambda>rv. rv\<lparr>r_bar := bar_set_value (r_bar rv) v\<rparr>) w)"
  by (rule table_inv_upd_row) (auto simp: table_inv_def bar_set_value_range)

lemma set_status_text_fields [simp]:
  "tbl_cols (fst (set_status_text r t w)) = tbl_cols w"
  "length (tbl_rows (fst (set_status_text r t w))) = length (tbl_rows w)"
  by (simp_all add: set_status_text_def)

lemma table_inv_status:
  assumes "table_inv w" and "r < length (tbl_rows w)"
  shows "table_inv (fst (set_status_text r t w))"
proof (cases "r_status (tbl_rows w ! r) = None")
  case True
  with assms show ?thesis by (simp add: set_status_text_def)
next
  case False
  have "tbl_rows w ! r \<in> set (tbl_rows w)" using assms(2) by simp
  with assms(1) False have cols: "\<not> tbl_cols w \<le> status_col" by (auto simp: table_inv_def)
  have "table_inv (upd_row r (\<lambda>rv. rv\<lparr>r_status := Some t\<rparr>) w)"
    using assms cols by (auto simp: table_inv_def upd_row_def dest!: set_update_subset_insert [THEN subsetD])
  moreover have "set_status_text r t w = (upd_row r (\<lambda>rv. rv\<lparr>r_status := Some t\<rparr>) w, None)"
    using False by (simp add: set_status_text_def)
  ultimately show ?thesis by simp
qed

lemma status_pair:
  assumes "set_status_text r t w = (w', e)" and "table_inv w" and "r < length (tbl_rows w)"
  shows "table_inv w' \<and> r < length (tbl_rows w')"
proof -
  have "w' = fst (set_status_text r t w)" using assms(1) by simp
  with assms(2,3) table_inv_status [of w r t] show ?thesis by simp
qed

lemma table_inv_on_update:
  assumes "table_inv w"
  shows "table_inv (fst (on_update r p w))"
proof (cases "length (tbl_rows w) \<le> r")
  case True
  with assms show ?thesis by (simp add: on_update_def)
next
  case False
  define w1 where "w1 = (case p_title p of Some t \<Rightarrow> upd_row r (\<lambda>rv. rv\<lparr>r_title := t\<rparr>) w | None \<Rightarrow> w)"
  define w2 where "w2 = (case p_progress p of
                    Some v \<Rightarrow> upd_row r (\<lambda>rv. rv\<lparr>r_bar := bar_set_value (r_bar rv) v\<rparr>) w1 | None \<Rightarrow> w1)"
  have r1: "r < length (tbl_rows w1)" and i1: "table_inv w1"
    using False assms table_inv_title by (auto simp: w1_def split: option.split)
  have r2: "r < length (tbl_rows w2)" and i2: "table_inv w2"
    using r1 i1 table_inv_bar by (auto simp: w2_def split: option.split)
  show ?thesis
    using False i2 r2
    by (auto simp: on_update_def Let_def w1_def [symmetric] w2_def [symmetric]
        split: option.split prod.split dest!: status_pair intro: table_inv_status)
qed


lemma table_inv_add_url: "table_inv w \<Longrightarrow> table_inv (add_url u now w)"
  by (auto simp: table_inv_def add_url_def new_cell_def)

lemma combo_set_range: "combo_set items i \<in> {-1..int (length items) - 1}"
  by (auto simp: combo_set_def)

lemma restore_combos:
  "max_res_idx w \<in> {-1..4} \<Longrightarrow> fmt_idx w \<in> {-1..1} \<Longrightarrow>
   max_res_idx (fst (restore w)) \<in> {-1..4} \<and> fmt_idx (fst (restore w)) \<in> {-1..1}"
  using combo_set_range [of max_res_items] combo_set_range [of format_items]
  by (auto simp: restore_def Let_def max_res_items_def format_items_def split: sum.split)

lemma restore_after_close:
  assumes "max_res_idx w \<in> {-1..4}" and "fmt_idx w \<in> {-1..1}"
  shows "restore (window_built cwd (store (close_event w))) =
           ((window_built cwd (store (close_event w)))\<lparr>out_dir := out_dir w, max_res_idx := max_res_idx w,
              fmt_idx := fmt_idx w\<rparr>, None)"
proof -
  have "combo_set max_res_items (max_res_idx w) = max_res_idx w"
    using assms(1) by (auto simp: combo_set_def max_res_items_def)
  moreover have "combo_set format_items (fmt_idx w) = fmt_idx w"
    using assms(2) by (auto simp: combo_set_def format_items_def)
  ultimately show ?thesis
    by (simp add: restore_def close_event_def window_built_def setting_int_def setting_str_def)
qed

lemma window_built_store [simp]: "store (window_built cwd st) = st"
  by (simp add: window_built_def)

text \<open>The table the program builds shows no "Status" header.\<close>

lemma window_built_labels:
  "tbl_labels (window_built cwd st) = [''URL'', ''Title'', ''Date Added'', ''Progress'']"
  by (simp add: window_built_def header_labels_def)

section \<open>Properties of the window\<close>

text \<open>C22. The preferences round-trip: after closeEvent stores the folder and the two combo indices, a new window built and restored from that store has the same folder and indices (for indices a combo box can hold, including Qt's -1).\<close>

theorem restore_close_roundtrip:
  assumes "max_res_idx w \<in> {-1..4}" and "fmt_idx w \<in> {-1..1}"
  shows "\<exists>w'. restore (window_built cwd (store (close_event w))) = (w', None) \<and>
              out_dir w' = out_dir w \<and> max_res_idx w' = max_res_idx w \<and> fmt_idx w' = fmt_idx w"
  using restore_after_close [OF assms, of cwd] by simp

theorem restore_close_roundtrip_witness:
  "\<exists>w'. restore (window_built ''/tmp'' (store (close_event
          ((window_built ''/home/u'' Map.empty)\<lparr>max_res_idx := 3, fmt_idx := 1\<rparr>)))) = (w', None) \<and>
        out_dir w' = ''/home/u/downloads'' \<and> max_res_idx w' = 3 \<and> fmt_idx w' = 1"
  using restore_close_roundtrip [of "(window_built ''/home/u'' Map.empty)\<lparr>max_res_idx := 3, fmt_idx := 1\<rparr>" "''/tmp''"]
  by (simp add: window_built_def path_eval)

text \<open>C23. The table is created with 4 columns (QTableWidget(0, 4)) although five header labels are given, so column 4 ("Status") does not exist: setItem(r, 4, ...) is ignored and every payload with a "status" key makes _on_update raise AttributeError on item(row, 4).setText, leaving the status cell empty.\<close>

theorem on_update_status_raises:
  assumes "tbl_cols w = 4" and "table_inv w" and "r < length (tbl_rows w)" and "p_status p = Some st"
  shows "snd (on_update r p w) = Some none_attr \<and> r_status (tbl_rows (fst (on_update r p w)) ! r) = None"
proof -
  let ?w1 = "case p_title p of Some t \<Rightarrow> upd_row r (\<lambda>rv. rv\<lparr>r_title := t\<rparr>) w | None \<Rightarrow> w"
  let ?w2 = "case p_progress p of
               Some v \<Rightarrow> upd_row r (\<lambda>rv. rv\<lparr>r_bar := bar_set_value (r_bar rv) v\<rparr>) ?w1 | None \<Rightarrow> ?w1"
  have "table_inv ?w2" and "r < length (tbl_rows ?w2)" and "tbl_cols ?w2 = 4"
    using assms table_inv_title table_inv_bar by (auto split: option.split)
  then have none: "r_status (tbl_rows ?w2 ! r) = None"
    by (auto simp: table_inv_def status_col_def)
  have "on_update r p w = (?w2, Some none_attr)"
    using assms(3,4) none by (simp add: on_update_def Let_def set_status_text_none)
  with none show ?thesis by simp
qed

theorem on_update_status_raises_witness:
  "snd (on_update 0 starting_payload (add_url ''https://youtu.be/a'' ''11/09/2026 10:00:00 AM''
      (window_built ''/home/u'' Map.empty))) = Some none_attr"
proof -
  let ?w = "add_url ''https://youtu.be/a'' ''11/09/2026 10:00:00 AM'' (window_built ''/home/u'' Map.empty)"
  have "tbl_cols ?w = 4" by (simp add: add_url_def window_built_def)
  moreover have "table_inv ?w"
    by (rule table_inv_add_url) (simp add: table_inv_def window_built_def)
  moreover have "0 < length (tbl_rows ?w)" by (simp add: add_url_def window_built_def)
  ultimately show ?thesis
    using on_update_status_raises [of ?w 0 starting_payload "''Starting''"]
    by (simp add: starting_payload_def no_keys_def)
qed

text \<open>C37. A download started after the Browse dialog returned a folder writes into that folder: when Start passes its guards with a valid resolution choice and the dialog returned a folder path in pathlib's normal form, the new worker has the table's URLs, its stop flag is clear, and its output template is the chosen folder, a slash and "%(title)s [%(id)s].%(ext)s".\<close>

theorem start_uses_chosen_folder:
  assumes "path_normal d" and "path_parts d \<noteq> []" and "mk d = None" and "tbl_rows w \<noteq> []"
    and "\<not> (worker w \<noteq> None \<and> worker_running w)"
    and "0 \<le> max_res_idx w" and "max_res_idx w < 5"
  shows "\<exists>wk. worker (fst (start mk (choose_outdir d w))) = Some wk \<and> w_rows wk = map r_url (tbl_rows w) \<and>
              o_outtmpl (w_opts wk) = [(''default'', d @ ''/%(title)s [%(id)s].%(ext)s'')] \<and> \<not> w_stop wk"
proof -
  have "d \<noteq> []" using assms(2) by (auto simp: path_parts_def)
  moreover have "path_div d out_template = d @ ''/%(title)s [%(id)s].%(ext)s''"
    using path_div_normal [OF out_template_name assms(1,2)] by (simp add: out_template_def)
  ultimately show ?thesis
    using assms(3-)
    by (auto simp: start_def choose_outdir_def start_opts_valid make_opts_def dlworker_init_def)
qed

theorem start_uses_chosen_folder_witness:
  "\<exists>wk. worker (fst (start (\<lambda>_. None) (choose_outdir ''/media/usb'' (click_add ''now''
          ((window_built ''/home/u'' Map.empty)\<lparr>url_input := ''https://youtu.be/a''\<rparr>))))) = Some wk \<and>
        o_outtmpl (w_opts wk) = [(''default'', ''/media/usb/%(title)s [%(id)s].%(ext)s'')]"
proof -
  let ?w = "click_add ''now'' ((window_built ''/home/u'' Map.empty)\<lparr>url_input := ''https://youtu.be/a''\<rparr>)"
  have "path_normal ''/media/usb''" "path_parts ''/media/usb'' \<noteq> []"
    by (simp_all add: path_normal_def path_root_def path_parts_def path_str_def)
  moreover have "tbl_rows ?w \<noteq> []" "\<not> (worker ?w \<noteq> None \<and> worker_running ?w)" "0 \<le> max_res_idx ?w" "max_res_idx ?w < 5"
    by (simp_all add: click_add_def add_url_def window_built_def py_strip_def is_space_def)
  ultimately show ?thesis
    using start_uses_chosen_folder [of "''/media/usb''" "\<lambda>_. None"] by auto
qed

end
