(* ===== verification/System.thy ===== *)
theory System
  imports Window
begin

text \<open>
  The running program: the window's thread and the worker thread interleaved.
  \<^item> \<open>sys\<close> holds the window, the worker thread's position in \<^verbatim>\<open>DLWorker.run\<close>
    (\<open>wpc\<close>: not started or returned, at the stop check of iteration \<open>i\<close>, or
    after \<^verbatim>\<open>sig_done\<close> and before \<^verbatim>\<open>run()\<close> returns), the signals emitted
    but not yet delivered (Qt's queued connection delivers them in order on
    the window's thread), and the signals the current run has emitted so far
    (\<open>run_log\<close>, a ghost field used to relate the run to \<open>dl_run\<close>).
  \<^item> \<open>sys_step lib\<close> is a user action, the user editing an input widget
    (\<open>apply_edit\<close>) or clicking an enabled button (Add, Start, Stop), or a step
    the program takes by itself (\<open>sys_auto lib\<close>): one queued signal is
    delivered to its slot, the worker thread checks the flag and runs one
    iteration or leaves the loop (\<open>worker_step lib\<close>), or \<^verbatim>\<open>run()\<close> has
    returned and the thread ends. The window's \<^verbatim>\<open>stop()\<close> writes the flag of
    the worker object the worker thread reads. \<open>sys_step_induct\<close> and
    \<open>sys_step_cases\<close> give one case per action.
  \<^item> \<open>reachable lib cwd st\<close> are the states reachable from the window built
    and restored with preferences \<open>st\<close>, when that restore raises nothing
    (otherwise \<^verbatim>\<open>Main()\<close> raises and no event loop runs).
\<close>

section \<open>State and steps\<close>

datatype wpc = Idle | AtCheck nat | Exited

record sys =
  win :: window
  pc :: wpc
  queue :: "signal list"
  run_log :: "signal list"

definition sys_init :: "string \<Rightarrow> settings \<Rightarrow> sys" where
  "sys_init cwd st = \<lparr>win = fst (restore (window_built cwd st)), pc = Idle, queue = [], run_log = []\<rparr>"

definition cur_rows :: "sys \<Rightarrow> string list" where
  "cur_rows s = (case worker (win s) of Some wk \<Rightarrow> w_rows wk | None \<Rightarrow> [])"

definition cur_stop :: "sys \<Rightarrow> bool" where
  "cur_stop s = (case worker (win s) of Some wk \<Rightarrow> w_stop wk | None \<Rightarrow> False)"

text \<open>Start launches a worker thread exactly when \<^verbatim>\<open>_start\<close> passes its guards
  and builds the options.\<close>

definition launches :: "(string \<Rightarrow> py_exc option) \<Rightarrow> window \<Rightarrow> bool" where
  "launches mk w \<longleftrightarrow> tbl_rows w \<noteq> [] \<and> \<not> (worker w \<noteq> None \<and> worker_running w) \<and> mk (out_dir w) = None \<and>
                   (case start_opts (out_dir w) (max_res_idx w) (fmt_idx w) of Inr _ \<Rightarrow> True | Inl _ \<Rightarrow> False)"

text \<open>The worker thread's own steps in \<^verbatim>\<open>run()\<close> (lines 50--84): at the
  check of iteration \<open>i\<close> it reads the flag and either runs the item, emitting
  its signals, or leaves the loop and emits \<^verbatim>\<open>sig_done\<close>.\<close>

inductive worker_step :: "library \<Rightarrow> sys \<Rightarrow> sys \<Rightarrow> bool" for lib where
  iteration: "pc s = AtCheck i \<Longrightarrow> i < length (cur_rows s) \<Longrightarrow> \<not> cur_stop s \<Longrightarrow>
     worker_step lib s (s\<lparr>pc := AtCheck (Suc i),
                       queue := queue s @ run_item lib i (cur_rows s ! i),
                       run_log := run_log s @ run_item lib i (cur_rows s ! i)\<rparr>)"
| leave_loop: "pc s = AtCheck i \<Longrightarrow> length (cur_rows s) \<le> i \<or> cur_stop s \<Longrightarrow>
     worker_step lib s (s\<lparr>pc := Exited, queue := queue s @ [Finished], run_log := run_log s @ [Finished]\<rparr>)"

text \<open>The steps the program takes with no action of the user: the worker
  thread's steps, the delivery of the oldest pending signal to its slot on the
  window's thread, and the end of the thread once \<^verbatim>\<open>run()\<close> has returned.\<close>

inductive sys_auto :: "library \<Rightarrow> sys \<Rightarrow> sys \<Rightarrow> bool" for lib where
  worker: "worker_step lib s s' \<Longrightarrow> sys_auto lib s s'"
| deliver_one: "queue s = sg # rest \<Longrightarrow>
     sys_auto lib s (s\<lparr>win := fst (deliver sg (win s)), queue := rest\<rparr>)"
| thread_end: "pc s = Exited \<Longrightarrow> sys_auto lib s (s\<lparr>win := thread_finished (win s), pc := Idle\<rparr>)"

text \<open>Every step: the user edits an input widget or clicks an enabled button,
  or the program moves by itself.\<close>

inductive sys_step :: "library \<Rightarrow> sys \<Rightarrow> sys \<Rightarrow> bool" for lib where
  edit: "sys_step lib s (s\<lparr>win := apply_edit e (win s)\<rparr>)"
| add: "sys_step lib s (s\<lparr>win := click_add now (win s)\<rparr>)"
| start_noop: "btn_start_enabled (win s) \<Longrightarrow> \<not> launches mk (win s) \<Longrightarrow>
     sys_step lib s (s\<lparr>win := fst (start mk (win s))\<rparr>)"
| start_run: "btn_start_enabled (win s) \<Longrightarrow> launches mk (win s) \<Longrightarrow>
     sys_step lib s (s\<lparr>win := fst (start mk (win s)), pc := AtCheck 0, run_log := []\<rparr>)"
| stop_click: "btn_stop_enabled (win s) \<Longrightarrow> sys_step lib s (s\<lparr>win := stop (win s)\<rparr>)"
| auto: "sys_auto lib s s' \<Longrightarrow> sys_step lib s s'"

text \<open>\<^verbatim>\<open>Main()\<close> raises when \<^verbatim>\<open>_restore\<close> does, and then no event loop
  runs: the states are those reachable from a window whose restore succeeded.\<close>

inductive reachable :: "library \<Rightarrow> string \<Rightarrow> settings \<Rightarrow> sys \<Rightarrow> bool" for lib cwd st where
  init: "snd (restore (window_built cwd st)) = None \<Longrightarrow> reachable lib cwd st (sys_init cwd st)"
| step: "reachable lib cwd st s \<Longrightarrow> sys_step lib s s' \<Longrightarrow> reachable lib cwd st s'"

section \<open>The invariant\<close>

text \<open>
  Five parts, each a property of the program the proofs below show every
  step keeps:
  \<^item> \<open>inv_threads\<close>: \<^verbatim>\<open>isRunning()\<close> holds exactly while the worker thread is in
    \<^verbatim>\<open>run()\<close>, and then there is a worker object;
  \<^item> \<open>inv_buttons\<close>: exactly one of Start and Stop is enabled; when Start is
    enabled no signal is pending and the loop is not running; a pending
    \<^verbatim>\<open>sig_done\<close> is the last pending signal and none is pending while the loop runs;
  \<^item> \<open>inv_rows\<close>: the worker's rows are no more than the table's rows, the
    indices the run emitted are rows of the worker, and the pending signals are
    the newest the run emitted;
  \<^item> \<open>inv_log\<close>: at the check of iteration \<open>i\<close> the run has emitted exactly what
    the loop emits for the first \<open>i\<close> rows, and after the loop exactly that for
    some prefix followed by \<^verbatim>\<open>sig_done\<close>;
  \<^item> \<open>inv_table\<close>: the table invariant, with the 4 columns the table is built with.
\<close>

definition inv_threads :: "sys \<Rightarrow> bool" where
  "inv_threads s \<longleftrightarrow> (worker_running (win s) \<longleftrightarrow> pc s \<noteq> Idle) \<and> (pc s \<noteq> Idle \<longrightarrow> worker (win s) \<noteq> None)"

definition inv_buttons :: "sys \<Rightarrow> bool" where
  "inv_buttons s \<longleftrightarrow>
     (btn_start_enabled (win s) \<longleftrightarrow> \<not> btn_stop_enabled (win s)) \<and>
     (btn_start_enabled (win s) \<longrightarrow> queue s = [] \<and> (\<forall>i. pc s \<noteq> AtCheck i)) \<and>
     (Finished \<in> set (queue s) \<longrightarrow> (\<exists>q. queue s = q @ [Finished] \<and> Finished \<notin> set q)) \<and>
     (\<forall>i. pc s = AtCheck i \<longrightarrow> Finished \<notin> set (queue s))"

definition inv_rows :: "sys \<Rightarrow> bool" where
  "inv_rows s \<longleftrightarrow> length (cur_rows s) \<le> length (tbl_rows (win s)) \<and>
     (\<forall>k \<in> set (update_indices (run_log s)). k < length (cur_rows s)) \<and> suffix (queue s) (run_log s)"

definition inv_log :: "library \<Rightarrow> sys \<Rightarrow> bool" where
  "inv_log lib s \<longleftrightarrow>
     (\<forall>i. pc s = AtCheck i \<longrightarrow>
          i \<le> length (cur_rows s) \<and> run_log s = run_loop lib (\<lambda>_. False) 0 (take i (cur_rows s))) \<and>
     (pc s = Exited \<longrightarrow>
          (\<exists>k \<le> length (cur_rows s). run_log s = run_loop lib (\<lambda>_. False) 0 (take k (cur_rows s)) @ [Finished]))"

definition inv_table :: "sys \<Rightarrow> bool" where
  "inv_table s \<longleftrightarrow> table_inv (win s) \<and> tbl_cols (win s) = 4"

definition sys_inv :: "library \<Rightarrow> sys \<Rightarrow> bool" where
  "sys_inv lib s \<longleftrightarrow> inv_threads s \<and> inv_buttons s \<and> inv_rows s \<and> inv_log lib s \<and> inv_table s"

text \<open>Outside the loop, once \<^verbatim>\<open>sig_done\<close> is no longer pending the Start
  button is enabled again (kept apart from \<open>sys_inv\<close>: no other part needs it).\<close>

definition inv_done :: "sys \<Rightarrow> bool" where
  "inv_done s \<longleftrightarrow> (\<forall>i. pc s \<noteq> AtCheck i) \<and> Finished \<notin> set (queue s) \<longrightarrow> btn_start_enabled (win s)"

text \<open>The checks of the stop flag the worker thread has left to make in its
  loop: a measure for the loop's termination.\<close>

definition checks_left :: "sys \<Rightarrow> nat" where
  "checks_left s = (case pc s of AtCheck i \<Rightarrow> Suc (length (cur_rows s) - i) | _ \<Rightarrow> 0)"

text \<open>The combo boxes' indices stay where Qt can put them: an item of the
  box, or -1.\<close>

definition inv_combos :: "sys \<Rightarrow> bool" where
  "inv_combos s \<longleftrightarrow> max_res_idx (win s) \<in> {-1..4} \<and> fmt_idx (win s) \<in> {-1..1}"

section \<open>Lemmas: the steps, one rule per action\<close>

lemma sys_step_induct [consumes 1, case_names edit add start_noop start_run stop_click
                         deliver_one iteration leave_loop thread_end]:
  assumes "sys_step lib x1 x2"
    and "\<And>s e. P s (s\<lparr>win := apply_edit e (win s)\<rparr>)"
    and "\<And>s now. P s (s\<lparr>win := click_add now (win s)\<rparr>)"
    and "\<And>s mk. btn_start_enabled (win s) \<Longrightarrow> \<not> launches mk (win s) \<Longrightarrow>
           P s (s\<lparr>win := fst (start mk (win s))\<rparr>)"
    and "\<And>s mk. btn_start_enabled (win s) \<Longrightarrow> launches mk (win s) \<Longrightarrow>
           P s (s\<lparr>win := fst (start mk (win s)), pc := AtCheck 0, run_log := []\<rparr>)"
    and "\<And>s. btn_stop_enabled (win s) \<Longrightarrow> P s (s\<lparr>win := stop (win s)\<rparr>)"
    and "\<And>s sg rest. queue s = sg # rest \<Longrightarrow> P s (s\<lparr>win := fst (deliver sg (win s)), queue := rest\<rparr>)"
    and "\<And>s i. pc s = AtCheck i \<Longrightarrow> i < length (cur_rows s) \<Longrightarrow> \<not> cur_stop s \<Longrightarrow>
           P s (s\<lparr>pc := AtCheck (Suc i), queue := queue s @ run_item lib i (cur_rows s ! i),
                  run_log := run_log s @ run_item lib i (cur_rows s ! i)\<rparr>)"
    and "\<And>s i. pc s = AtCheck i \<Longrightarrow> length (cur_rows s) \<le> i \<or> cur_stop s \<Longrightarrow>
           P s (s\<lparr>pc := Exited, queue := queue s @ [Finished], run_log := run_log s @ [Finished]\<rparr>)"
    and "\<And>s. pc s = Exited \<Longrightarrow> P s (s\<lparr>win := thread_finished (win s), pc := Idle\<rparr>)"
  shows "P x1 x2"
  using assms(1)
proof cases
  case auto
  then show ?thesis
  proof cases
    case worker
    then show ?thesis by cases (simp_all add: assms(8,9))
  qed (simp_all add: assms(7,10))
qed (simp_all add: assms(2-6))

lemma sys_step_cases [consumes 1, case_names edit add start_noop start_run stop_click
                         deliver_one iteration leave_loop thread_end]:
  assumes "sys_step lib s s'"
  obtains (edit) e where "s' = s\<lparr>win := apply_edit e (win s)\<rparr>"
    | (add) now where "s' = s\<lparr>win := click_add now (win s)\<rparr>"
    | (start_noop) mk where "s' = s\<lparr>win := fst (start mk (win s))\<rparr>"
        "btn_start_enabled (win s)" "\<not> launches mk (win s)"
    | (start_run) mk where "s' = s\<lparr>win := fst (start mk (win s)), pc := AtCheck 0, run_log := []\<rparr>"
        "btn_start_enabled (win s)" "launches mk (win s)"
    | (stop_click) "s' = s\<lparr>win := stop (win s)\<rparr>" "btn_stop_enabled (win s)"
    | (deliver_one) sg rest where "s' = s\<lparr>win := fst (deliver sg (win s)), queue := rest\<rparr>"
        "queue s = sg # rest"
    | (iteration) i where "s' = s\<lparr>pc := AtCheck (Suc i), queue := queue s @ run_item lib i (cur_rows s ! i),
                  run_log := run_log s @ run_item lib i (cur_rows s ! i)\<rparr>"
        "pc s = AtCheck i" "i < length (cur_rows s)" "\<not> cur_stop s"
    | (leave_loop) i where "s' = s\<lparr>pc := Exited, queue := queue s @ [Finished], run_log := run_log s @ [Finished]\<rparr>"
        "pc s = AtCheck i" "length (cur_rows s) \<le> i \<or> cur_stop s"
    | (thread_end) "s' = s\<lparr>win := thread_finished (win s), pc := Idle\<rparr>" "pc s = Exited"
  using assms by (induction rule: sys_step_induct) blast+

lemmas sys_step_deliver_one = sys_auto.deliver_one [THEN sys_step.auto]
lemmas sys_step_thread_end = sys_auto.thread_end [THEN sys_step.auto]
lemmas sys_step_iteration = worker_step.iteration [THEN sys_auto.worker, THEN sys_step.auto]
lemmas sys_step_leave_loop = worker_step.leave_loop [THEN sys_auto.worker, THEN sys_step.auto]

section \<open>Lemmas: frames of the window operations\<close>

lemma start_noop_eq: "\<not> launches mk w \<Longrightarrow> fst (start mk w) = w"
  by (auto simp: launches_def start_def split: sum.split option.split)

lemma start_launch:
  assumes "launches mk w"
  shows "\<exists>opts. fst (start mk w) = w\<lparr>worker := Some (dlworker_init (map r_url (tbl_rows w)) opts),
                     btn_start_enabled := False, btn_stop_enabled := True, worker_running := True\<rparr>"
  using assms by (auto simp: launches_def start_def split: sum.split_asm)

lemma stop_fields [simp]:
  "tbl_rows (stop w) = tbl_rows w" "tbl_cols (stop w) = tbl_cols w"
  "worker_running (stop w) = worker_running w"
  "btn_start_enabled (stop w) = btn_start_enabled w" "btn_stop_enabled (stop w) = btn_stop_enabled w"
  "(worker (stop w) = None) = (worker w = None)"
  "map_option w_rows (worker (stop w)) = map_option w_rows (worker w)"
  by (simp_all add: stop_def dlworker_stop_def split: option.split)

lemma on_update_fields [simp]:
  "tbl_cols (fst (on_update r p w)) = tbl_cols w"
  "length (tbl_rows (fst (on_update r p w))) = length (tbl_rows w)"
  "worker (fst (on_update r p w)) = worker w"
  "worker_running (fst (on_update r p w)) = worker_running w"
  "btn_start_enabled (fst (on_update r p w)) = btn_start_enabled w"
  "btn_stop_enabled (fst (on_update r p w)) = btn_stop_enabled w"
  by (simp_all add: on_update_def Let_def set_status_text_def split: option.split prod.split)

lemma click_add_fields [simp]:
  "tbl_cols (click_add now w) = tbl_cols w"
  "worker (click_add now w) = worker w"
  "worker_running (click_add now w) = worker_running w"
  "btn_start_enabled (click_add now w) = btn_start_enabled w"
  "btn_stop_enabled (click_add now w) = btn_stop_enabled w"
  "length (tbl_rows w) \<le> length (tbl_rows (click_add now w))"
  by (simp_all add: click_add_def add_url_def)

lemma cur_rows_stop [simp]: "cur_rows (s\<lparr>win := stop (win s)\<rparr>) = cur_rows s"
  by (simp add: cur_rows_def stop_def dlworker_stop_def split: option.split)

section \<open>Lemmas: the run log\<close>

lemma run_loop_take_Suc:
  "i < length us \<Longrightarrow>
   run_loop lib (\<lambda>_. False) j (take (Suc i) us) = run_loop lib (\<lambda>_. False) j (take i us) @ run_item lib (j + i) (us ! i)"
proof (induction us arbitrary: i j)
  case Nil
  then show ?case by simp
next
  case (Cons u us)
  show ?case
  proof (cases i)
    case 0
    then show ?thesis by simp
  next
    case (Suc i')
    with Cons.prems Cons.IH [of i' "Suc j"] show ?thesis by simp
  qed
qed

lemma run_loop_stop_from:
  "j \<le> k \<Longrightarrow> run_loop lib (\<lambda>i. k \<le> i) j us = run_loop lib (\<lambda>_. False) j (take (k - j) us)"
proof (induction us arbitrary: j)
  case Nil
  then show ?case by simp
next
  case (Cons u us)
  show ?case
  proof (cases "k \<le> j")
    case True
    with Cons.prems have "k - j = 0" by simp
    with True show ?thesis by simp
  next
    case False
    then have "take (k - j) (u # us) = u # take (k - Suc j) us"
      by (simp add: take_Cons' Suc_diff_Suc)
    with False Cons.IH [of "Suc j"] show ?thesis by simp
  qed
qed

section \<open>Lemmas: every step keeps the invariant\<close>

lemma deliver_fields [simp]:
  "worker (fst (deliver sg w)) = worker w"
  "worker_running (fst (deliver sg w)) = worker_running w"
  "tbl_cols (fst (deliver sg w)) = tbl_cols w"
  "length (tbl_rows (fst (deliver sg w))) = length (tbl_rows w)"
  by (cases sg; simp add: on_done_def)+

lemma deliver_buttons:
  "btn_start_enabled (fst (deliver sg w)) = (if sg = Finished then True else btn_start_enabled w)"
  "btn_stop_enabled (fst (deliver sg w)) = (if sg = Finished then False else btn_stop_enabled w)"
  by (cases sg; simp add: on_done_def)+

lemma launches_idle: "launches mk w \<Longrightarrow> inv_threads s \<Longrightarrow> w = win s \<Longrightarrow> pc s = Idle"
  by (auto simp: launches_def inv_threads_def)

lemma inv_threads_step:
  assumes "sys_step lib s s'" and "sys_inv lib s"
  shows "inv_threads s'"
  using assms
proof (induction rule: sys_step_induct)
  case (start_noop s mk)
  then show ?case by (simp add: start_noop_eq sys_inv_def)
next
  case (start_run s mk)
  then obtain opts where "fst (start mk (win s)) = (win s)\<lparr>worker := Some (dlworker_init (map r_url (tbl_rows (win s))) opts),
                     btn_start_enabled := False, btn_stop_enabled := True, worker_running := True\<rparr>"
    using start_launch by blast
  then show ?case by (simp add: inv_threads_def)
next
  case (thread_end s)
  then show ?case by (simp add: inv_threads_def thread_finished_def)
qed (auto simp: sys_inv_def inv_threads_def)

lemma inv_buttons_step:
  assumes "sys_step lib s s'" and "sys_inv lib s"
  shows "inv_buttons s'"
  using assms
proof (induction rule: sys_step_induct)
  case (start_noop s mk)
  then show ?case by (simp add: start_noop_eq sys_inv_def)
next
  case (start_run s mk)
  then obtain opts where "fst (start mk (win s)) = (win s)\<lparr>worker := Some (dlworker_init (map r_url (tbl_rows (win s))) opts),
                     btn_start_enabled := False, btn_stop_enabled := True, worker_running := True\<rparr>"
    using start_launch by blast
  moreover have "queue s = []" using start_run by (simp add: sys_inv_def inv_buttons_def)
  ultimately show ?case by (simp add: inv_buttons_def)
next
  case (deliver_one s sg rest)
  then have b: "inv_buttons s" by (simp add: sys_inv_def)
  show ?case
  proof (cases "sg = Finished")
    case True
    with b deliver_one.hyps obtain q where "sg # rest = q @ [Finished]" "Finished \<notin> set q"
      by (auto simp: inv_buttons_def)
    with True have "rest = []" by (cases q) auto
    moreover have "\<forall>i. pc s \<noteq> AtCheck i" using b deliver_one.hyps True by (auto simp: inv_buttons_def)
    ultimately show ?thesis using True by (simp add: inv_buttons_def on_done_def)
  next
    case False
    with b deliver_one.hyps show ?thesis
      by (auto simp: inv_buttons_def deliver_buttons Cons_eq_append_conv)
  qed
next
  case (iteration s i)
  then show ?case
    by (auto simp: sys_inv_def inv_buttons_def run_item_map)
next
  case (leave_loop s i)
  then show ?case by (auto simp: sys_inv_def inv_buttons_def)
next
  case (thread_end s)
  then show ?case by (auto simp: sys_inv_def inv_buttons_def thread_finished_def)
qed (auto simp: sys_inv_def inv_buttons_def)

lemma table_inv_cong:
  "tbl_rows w' = tbl_rows w \<Longrightarrow> tbl_cols w' = tbl_cols w \<Longrightarrow> table_inv w' = table_inv w"
  by (simp add: table_inv_def)

lemma cur_rows_same_worker:
  "worker w = worker (win s) \<Longrightarrow> cur_rows (s\<lparr>win := w, queue := q, run_log := l, pc := p\<rparr>) = cur_rows s"
  "worker w = worker (win s) \<Longrightarrow> cur_rows (s\<lparr>win := w, queue := q\<rparr>) = cur_rows s"
  "worker w = worker (win s) \<Longrightarrow> cur_rows (s\<lparr>win := w, pc := p\<rparr>) = cur_rows s"
  "worker w = worker (win s) \<Longrightarrow> cur_rows (s\<lparr>win := w\<rparr>) = cur_rows s"
  "cur_rows (s\<lparr>pc := p, queue := q, run_log := l\<rparr>) = cur_rows s"
  by (simp_all add: cur_rows_def)

lemma cur_rows_start_run:
  "launches mk (win s) \<Longrightarrow> cur_rows (s\<lparr>win := fst (start mk (win s)), pc := p, run_log := l\<rparr>) = map r_url (tbl_rows (win s))"
  using start_launch [of mk "win s"] by (auto simp: cur_rows_def dlworker_init_def)

lemma table_inv_click_add: "table_inv w \<Longrightarrow> table_inv (click_add now w)"
  by (simp add: click_add_def table_inv_add_url)

lemma update_indices_Finished [simp]: "update_indices [Finished] = []"
  by (simp add: update_indices_def map_filter_def)

lemma update_indices_Nil [simp]: "update_indices [] = []"
  by (simp add: update_indices_def)

lemma inv_rows_step:
  assumes "sys_step lib s s'" and "sys_inv lib s"
  shows "inv_rows s'"
  using assms
proof (induction rule: sys_step_induct)
  case (edit s e)
  then show ?case by (simp add: sys_inv_def inv_rows_def cur_rows_def)
next
  case (add s now)
  then have "length (cur_rows s) \<le> length (tbl_rows (win s))" by (simp add: sys_inv_def inv_rows_def)
  also have "\<dots> \<le> length (tbl_rows (click_add now (win s)))" by (rule click_add_fields(6))
  finally show ?case using add by (simp add: sys_inv_def inv_rows_def cur_rows_same_worker)
next
  case (start_noop s mk)
  then show ?case by (simp add: start_noop_eq sys_inv_def)
next
  case (start_run s mk)
  then have "queue s = []" by (simp add: sys_inv_def inv_buttons_def)
  moreover have "length (tbl_rows (fst (start mk (win s)))) = length (tbl_rows (win s))"
    using start_launch [OF start_run(2)] by auto
  ultimately show ?case using start_run by (simp add: inv_rows_def cur_rows_start_run)
next
  case (stop_click s)
  then show ?case by (simp add: sys_inv_def inv_rows_def)
next
  case (deliver_one s sg rest)
  then show ?case
    by (auto simp: sys_inv_def inv_rows_def cur_rows_same_worker intro: suffix_ConsD)
next
  case (iteration s i)
  then show ?case
    by (auto simp: sys_inv_def inv_rows_def run_item_map cur_rows_same_worker)
next
  case (leave_loop s i)
  then show ?case by (auto simp: sys_inv_def inv_rows_def cur_rows_same_worker)
next
  case (thread_end s)
  then show ?case by (auto simp: sys_inv_def inv_rows_def thread_finished_def cur_rows_def)
qed

lemma inv_log_step:
  assumes "sys_step lib s s'" and "sys_inv lib s"
  shows "inv_log lib s'"
  using assms
proof (induction rule: sys_step_induct)
  case (edit s e)
  then have "inv_log lib s" by (simp add: sys_inv_def)
  then show ?case by (simp add: inv_log_def cur_rows_def)
next
  case (add s now)
  then have "inv_log lib s" by (simp add: sys_inv_def)
  then show ?case by (simp add: inv_log_def cur_rows_same_worker)
next
  case (start_noop s mk)
  then show ?case by (simp add: start_noop_eq sys_inv_def)
next
  case (start_run s mk)
  then show ?case by (simp add: inv_log_def)
next
  case (stop_click s)
  then have "inv_log lib s" by (simp add: sys_inv_def)
  then show ?case by (simp add: inv_log_def)
next
  case (deliver_one s sg rest)
  then have "inv_log lib s" by (simp add: sys_inv_def)
  then show ?case by (simp add: inv_log_def cur_rows_same_worker)
next
  case (iteration s i)
  then have "i \<le> length (cur_rows s)" and log: "run_log s = run_loop lib (\<lambda>_. False) 0 (take i (cur_rows s))"
    by (simp_all add: sys_inv_def inv_log_def)
  have "run_log s @ run_item lib i (cur_rows s ! i) = run_loop lib (\<lambda>_. False) 0 (take (Suc i) (cur_rows s))"
    using iteration(2) by (simp add: log run_loop_take_Suc)
  with iteration(2) show ?case by (simp add: inv_log_def cur_rows_same_worker)
next
  case (leave_loop s i)
  then have "i \<le> length (cur_rows s)" and log: "run_log s = run_loop lib (\<lambda>_. False) 0 (take i (cur_rows s))"
    by (simp_all add: sys_inv_def inv_log_def)
  then show ?case by (auto simp: inv_log_def cur_rows_same_worker)
next
  case (thread_end s)
  then show ?case by (simp add: inv_log_def)
qed

lemma inv_table_step:
  assumes "sys_step lib s s'" and "sys_inv lib s"
  shows "inv_table s'"
  using assms
proof (induction rule: sys_step_induct)
  case (add s now)
  then show ?case by (simp add: sys_inv_def inv_table_def table_inv_click_add)
next
  case (start_noop s mk)
  then show ?case by (simp add: start_noop_eq sys_inv_def)
next
  case (start_run s mk)
  then have "inv_table s" by (simp add: sys_inv_def)
  with start_launch [OF start_run(2)] show ?case by (auto simp: inv_table_def table_inv_def)
next
  case (stop_click s)
  then have "inv_table s" by (simp add: sys_inv_def)
  then show ?case by (simp add: inv_table_def table_inv_def)
next
  case (deliver_one s sg rest)
  then have "inv_table s" by (simp add: sys_inv_def)
  then show ?case
    by (cases sg) (simp_all add: inv_table_def table_inv_on_update, simp add: on_done_def table_inv_def)
next
  case (thread_end s)
  then have "inv_table s" by (simp add: sys_inv_def)
  then show ?case by (simp add: inv_table_def thread_finished_def table_inv_def)
qed (simp_all add: sys_inv_def inv_table_def table_inv_def)

lemma sys_inv_step: "sys_step lib s s' \<Longrightarrow> sys_inv lib s \<Longrightarrow> sys_inv lib s'"
  by (simp add: sys_inv_def inv_threads_step inv_buttons_step inv_rows_step inv_log_step inv_table_step)

lemma restore_fields [simp]:
  "tbl_cols (fst (restore w)) = tbl_cols w" "tbl_rows (fst (restore w)) = tbl_rows w"
  "worker (fst (restore w)) = worker w" "worker_running (fst (restore w)) = worker_running w"
  "btn_start_enabled (fst (restore w)) = btn_start_enabled w"
  "btn_stop_enabled (fst (restore w)) = btn_stop_enabled w"
  by (simp_all add: restore_def Let_def split: sum.split)

lemma sys_inv_init: "sys_inv lib (sys_init cwd st)"
  by (simp add: sys_inv_def sys_init_def inv_threads_def inv_buttons_def inv_rows_def inv_log_def
      inv_table_def table_inv_def window_built_def cur_rows_def)

lemma reachable_sys_inv: "reachable lib cwd st s \<Longrightarrow> sys_inv lib s"
proof (induction rule: reachable.induct)
  case init
  show ?case by (rule sys_inv_init)
next
  case (step s s')
  then show ?case by (blast intro: sys_inv_step)
qed

section \<open>Lemmas: consequences for reachable states\<close>

lemma reach_inv:
  assumes "reachable lib cwd st s"
  shows "inv_threads s" "inv_buttons s" "inv_rows s" "inv_log lib s" "inv_table s"
  using reachable_sys_inv [OF assms] by (simp_all add: sys_inv_def)

lemma reach_win_rows:
  assumes "reachable lib cwd st s" and "rv \<in> set (tbl_rows (win s))"
  shows "0 \<le> r_bar rv \<and> r_bar rv \<le> 100 \<and> r_status rv = None"
  using reach_inv(5) [OF assms(1)] assms(2) by (auto simp: inv_table_def table_inv_def status_col_def)


section \<open>Lemmas: a run can always finish\<close>

text \<open>The worker thread can always run its loop to the end, the window's thread
  can always deliver what is pending, and the Start button is enabled again
  once \<^verbatim>\<open>sig_done\<close> is delivered.\<close>

lemma reachable_inv_done: "reachable lib cwd st s \<Longrightarrow> inv_done s"
proof (induction rule: reachable.induct)
  case init
  show ?case by (simp add: inv_done_def sys_init_def window_built_def)
next
  case (step s s')
  from step.hyps(2) step.IH show ?case
    by (cases rule: sys_step_cases)
       (auto simp: inv_done_def start_noop_eq deliver_buttons thread_finished_def click_add_def add_url_def Let_def)
qed

lemma worker_steps_auto: "(worker_step lib)\<^sup>*\<^sup>* s s' \<Longrightarrow> (sys_auto lib)\<^sup>*\<^sup>* s s'"
proof -
  have "worker_step lib \<le> sys_auto lib" by (auto intro: sys_auto.worker)
  then show "(worker_step lib)\<^sup>*\<^sup>* s s' \<Longrightarrow> (sys_auto lib)\<^sup>*\<^sup>* s s'" using rtranclp_mono by blast
qed

lemma auto_steps_sys: "(sys_auto lib)\<^sup>*\<^sup>* s s' \<Longrightarrow> (sys_step lib)\<^sup>*\<^sup>* s s'"
proof -
  have "sys_auto lib \<le> sys_step lib" by (auto intro: sys_step.auto)
  then show "(sys_auto lib)\<^sup>*\<^sup>* s s' \<Longrightarrow> (sys_step lib)\<^sup>*\<^sup>* s s'" using rtranclp_mono by blast
qed

text \<open>The worker thread leaves its loop by its own steps alone.\<close>

lemma loop_exits: "pc s = AtCheck i \<Longrightarrow> \<exists>s'. (worker_step lib)\<^sup>*\<^sup>* s s' \<and> pc s' = Exited"
proof (induction "length (cur_rows s) - i" arbitrary: s i)
  case 0
  define s1 where "s1 = s\<lparr>pc := Exited, queue := queue s @ [Finished], run_log := run_log s @ [Finished]\<rparr>"
  have "worker_step lib s s1" unfolding s1_def using 0 by (intro worker_step.leave_loop) auto
  moreover have "pc s1 = Exited" by (simp add: s1_def)
  ultimately show ?case by (blast intro: r_into_rtranclp)
next
  case (Suc n)
  show ?case
  proof (cases "cur_stop s")
    case True
    define s1 where "s1 = s\<lparr>pc := Exited, queue := queue s @ [Finished], run_log := run_log s @ [Finished]\<rparr>"
    have "worker_step lib s s1" unfolding s1_def using Suc.prems True by (intro worker_step.leave_loop) auto
    moreover have "pc s1 = Exited" by (simp add: s1_def)
    ultimately show ?thesis by (blast intro: r_into_rtranclp)
  next
    case False
    define s1 where "s1 = s\<lparr>pc := AtCheck (Suc i), queue := queue s @ run_item lib i (cur_rows s ! i),
                             run_log := run_log s @ run_item lib i (cur_rows s ! i)\<rparr>"
    have step: "worker_step lib s s1"
      unfolding s1_def using Suc False by (intro worker_step.iteration) simp_all
    have "cur_rows s1 = cur_rows s" by (simp add: s1_def cur_rows_def)
    then have "n = length (cur_rows s1) - Suc i" using Suc.hyps(2) by simp
    then obtain s' where "(worker_step lib)\<^sup>*\<^sup>* s1 s'" "pc s' = Exited"
      using Suc.hyps(1) [of s1 "Suc i"] by (auto simp: s1_def)
    with step show ?thesis by (blast intro: converse_rtranclp_into_rtranclp)
  qed
qed

text \<open>The window's thread delivers every pending signal by itself.\<close>

lemma drain_queue: "\<exists>s'. (sys_auto lib)\<^sup>*\<^sup>* s s' \<and> queue s' = [] \<and> pc s' = pc s"
proof (induction "queue s" arbitrary: s)
  case Nil
  then show ?case by fastforce
next
  case (Cons sg rest)
  define s1 where "s1 = s\<lparr>win := fst (deliver sg (win s)), queue := rest\<rparr>"
  have step: "sys_auto lib s s1"
    unfolding s1_def using Cons.hyps(2) [symmetric] by (rule sys_auto.deliver_one)
  obtain s' where "(sys_auto lib)\<^sup>*\<^sup>* s1 s'" "queue s' = []" "pc s' = pc s1"
    using Cons.hyps(1) [of s1] by (auto simp: s1_def)
  with step show ?case by (auto simp: s1_def intro: converse_rtranclp_into_rtranclp)
qed

lemma reachable_rtranclp:
  "(sys_step lib)\<^sup>*\<^sup>* s s' \<Longrightarrow> reachable lib cwd st s \<Longrightarrow> reachable lib cwd st s'"
  by (induction rule: rtranclp_induct) (auto intro: reachable.step)

section \<open>Lemmas: the preferences the window holds\<close>

lemma window_fields_steps:
  "max_res_idx (click_add now w) = max_res_idx w" "fmt_idx (click_add now w) = fmt_idx w"
  "max_res_idx (fst (start mk w)) = max_res_idx w" "fmt_idx (fst (start mk w)) = fmt_idx w"
  "max_res_idx (stop w) = max_res_idx w" "fmt_idx (stop w) = fmt_idx w"
  "max_res_idx (fst (deliver sg w)) = max_res_idx w" "fmt_idx (fst (deliver sg w)) = fmt_idx w"
  "max_res_idx (thread_finished w) = max_res_idx w" "fmt_idx (thread_finished w) = fmt_idx w"
  by (cases sg; auto simp: click_add_def add_url_def start_def stop_def thread_finished_def on_done_def
        on_update_def Let_def upd_row_def set_status_text_def split: option.split sum.split prod.split)+

lemma reachable_inv_combos: "reachable lib cwd st s \<Longrightarrow> inv_combos s"
proof (induction rule: reachable.induct)
  case init
  have "max_res_idx (window_built cwd st) \<in> {-1..4}" "fmt_idx (window_built cwd st) \<in> {-1..1}"
    by (simp_all add: window_built_def)
  from restore_combos [OF this] show ?case unfolding inv_combos_def sys_init_def by simp
next
  case (step s s')
  from step.hyps(2) step.IH show ?case
    by (cases rule: sys_step_cases)
       (auto simp: inv_combos_def window_fields_steps apply_edit_def choose_outdir_def
                   max_res_items_def format_items_def split: ui_edit.split)
qed

end
