(* ===== verification/Entry.thy ===== *)
theory Entry
  imports System
begin

text \<open>
  The module's top level and the process entry (src/main.py): the guarded
  import of yt-dlp (lines 8--12), \<^verbatim>\<open>has_ffmpeg\<close> (lines 17--18),
  \<^verbatim>\<open>get_resource_path\<close> (lines 20--24) and \<^verbatim>\<open>main\<close> (lines 228--241). The
  operating system is an oracle \<open>os_env\<close>: the PyInstaller bundle directory
  (\<^verbatim>\<open>sys._MEIPASS\<close>, if set), the working directory, which files exist and
  what reading one returns or raises, and what \<^verbatim>\<open>shutil.which\<close> finds.
  Paths are POSIX paths; \<^verbatim>\<open>os.path.join\<close> is written out.
\<close>

section \<open>Definitions\<close>

record message_box =
  mb_icon :: string
  mb_title :: string
  mb_text :: string

text \<open>Lines 8--12, run when the module is imported, before \<^verbatim>\<open>main\<close> creates
  the \<^verbatim>\<open>QApplication\<close> (line 229). Only an \<^verbatim>\<open>ImportError\<close> is caught; the
  handler's \<^verbatim>\<open>QMessageBox.critical\<close> constructs a widget while no application
  exists, on which Qt prints its fatal message and aborts the process: no box is
  shown and the \<^verbatim>\<open>raise\<close> is never reached. Any other exception propagates.
  The argument is what \<^verbatim>\<open>import yt_dlp\<close> raises, if anything.\<close>

datatype import_outcome = Imported | QtAbort string | ImportRaised py_exc

definition import_guard :: "py_exc option \<Rightarrow> import_outcome" where
  "import_guard r =
     (case r of
        None \<Rightarrow> Imported
      | Some (ImportError m) \<Rightarrow> QtAbort ''QWidget: Must construct a QApplication before a QWidget''
      | Some e \<Rightarrow> ImportRaised e)"

record os_env =
  e_meipass :: "string option"
  e_cwd :: string
  e_exists :: "string \<Rightarrow> bool"
  e_read :: "string \<Rightarrow> py_exc + string"
  e_which :: "string \<Rightarrow> string option"

definition has_ffmpeg :: "os_env \<Rightarrow> bool" where
  "has_ffmpeg env \<longleftrightarrow> e_which env ''ffmpeg'' \<noteq> None"

text \<open>\<^verbatim>\<open>os.path.join(a, b)\<close> (POSIX): an absolute \<open>b\<close> replaces \<open>a\<close>; otherwise
  a separator is inserted unless \<open>a\<close> is empty or ends with one.\<close>

definition os_path_join :: "string \<Rightarrow> string \<Rightarrow> string" where
  "os_path_join a b =
     (if b \<noteq> [] \<and> hd b = CHR ''/'' then b
      else if a = [] \<or> last a = CHR ''/'' then a @ b
      else a @ ''/'' @ b)"

definition get_resource_path :: "os_env \<Rightarrow> string \<Rightarrow> string" where
  "get_resource_path env rel =
     (case e_meipass env of
        Some d \<Rightarrow> os_path_join d rel
      | None \<Rightarrow> os_path_join (e_cwd env) rel)"

text \<open>Lines 231--238: the style sheet applied, if any, and what is printed.\<close>

definition load_style :: "os_env \<Rightarrow> string option \<times> string list" where
  "load_style env =
     (let p = get_resource_path env ''style.qss'' in
      if e_exists env p then
        (case e_read env p of
           Inr css \<Rightarrow> (Some css, [])
         | Inl e \<Rightarrow> (None, [''Error loading stylesheet: '' @ exc_str e]))
      else (None, []))"

record main_run =
  m_stylesheet :: "string option"
  m_printed :: "string list"
  m_state :: "py_exc + sys"

text \<open>\<^verbatim>\<open>main\<close>: the style sheet, then \<^verbatim>\<open>Main()\<close> (the window built and
  restored from the stored preferences \<open>st\<close>, in the working directory) and the
  event loop, whose runs are the \<open>sys_step\<close> sequences from the state in
  \<open>m_state\<close>. An exception of \<^verbatim>\<open>_restore\<close> escapes \<^verbatim>\<open>Main()\<close> and
  \<^verbatim>\<open>main()\<close>: the process ends with it and no event loop runs.\<close>

definition main :: "os_env \<Rightarrow> settings \<Rightarrow> main_run" where
  "main env st =
     (let (css, out) = load_style env
      in \<lparr>m_stylesheet = css, m_printed = out,
          m_state = (case snd (restore (window_built (e_cwd env) st)) of
                       None \<Rightarrow> Inr (sys_init (e_cwd env) st)
                     | Some e \<Rightarrow> Inl e)\<rparr>)"

text \<open>Lines 194--195 of \<^verbatim>\<open>_start\<close>: the warning shown when a worker is started
  and FFmpeg is not on the \<^verbatim>\<open>PATH\<close>.\<close>

definition ffmpeg_warning :: "os_env \<Rightarrow> message_box list" where
  "ffmpeg_warning env =
     (if has_ffmpeg env then []
      else [\<lparr>mb_icon = ''warning'', mb_title = ''FFmpeg'',
             mb_text = ''FFmpeg not found on PATH. Install it or merges may fail.''\<rparr>])"

text \<open>An environment in which the style sheet exists but cannot be read.\<close>

definition ex_env :: os_env where
  "ex_env = \<lparr>e_meipass = None, e_cwd = ''/home/u'', e_exists = \<lambda>p. p = ''/home/u/style.qss'',
             e_read = \<lambda>_. Inl (OSError ''[Errno 13] Permission denied''), e_which = \<lambda>_. None\<rparr>"

section \<open>Lemmas\<close>

lemma os_path_join_rel:
  "\<not> (b \<noteq> [] \<and> hd b = CHR ''/'') \<Longrightarrow> \<exists>sep. os_path_join a b = a @ sep @ b \<and> (sep = [] \<or> sep = ''/'')"
  by (auto simp: os_path_join_def)

section \<open>Properties\<close>

text \<open>C35. For a relative resource name, get_resource_path gives a path that ends with the name and starts with the PyInstaller bundle directory when the program is frozen and with the working directory otherwise.\<close>

theorem get_resource_path_location:
  assumes "\<not> (rel \<noteq> [] \<and> hd rel = CHR ''/'')"
  shows "suffix rel (get_resource_path env rel) \<and>
         prefix (case e_meipass env of Some d \<Rightarrow> d | None \<Rightarrow> e_cwd env) (get_resource_path env rel)"
proof -
  obtain sep where "os_path_join (case e_meipass env of Some d \<Rightarrow> d | None \<Rightarrow> e_cwd env) rel =
                    (case e_meipass env of Some d \<Rightarrow> d | None \<Rightarrow> e_cwd env) @ sep @ rel"
    using os_path_join_rel [OF assms] by blast
  moreover have "get_resource_path env rel =
                 os_path_join (case e_meipass env of Some d \<Rightarrow> d | None \<Rightarrow> e_cwd env) rel"
    by (simp add: get_resource_path_def split: option.split)
  ultimately show ?thesis by (simp add: suffix_def)
qed

theorem get_resource_path_location_witness:
  "suffix ''style.qss'' (get_resource_path \<lparr>e_meipass = Some ''/tmp/_MEI42'', e_cwd = ''/home/u'',
      e_exists = \<lambda>_. False, e_read = \<lambda>_. Inr [], e_which = \<lambda>_. None\<rparr> ''style.qss'')"
  using get_resource_path_location [of "''style.qss''"] by simp

text \<open>C36. An existing style sheet that cannot be read does not stop the program: main applies no style sheet, prints "Error loading stylesheet: " followed by the error text, and goes on to Main(), whose outcome is unchanged: the restored window the event loop runs on when _restore succeeds, and _restore's exception otherwise.\<close>

theorem main_style_error_caught:
  assumes "e_exists env (get_resource_path env ''style.qss'')"
    and "e_read env (get_resource_path env ''style.qss'') = Inl e"
  shows "m_stylesheet (main env st) = None \<and>
         m_printed (main env st) = [''Error loading stylesheet: '' @ exc_str e] \<and>
         m_state (main env st) = (case snd (restore (window_built (e_cwd env) st)) of
                                    None \<Rightarrow> Inr (sys_init (e_cwd env) st) | Some e' \<Rightarrow> Inl e')"
  using assms by (simp add: main_def load_style_def Let_def)

theorem main_style_error_caught_witness:
  "m_printed (main ex_env Map.empty) = [''Error loading stylesheet: [Errno 13] Permission denied''] \<and>
   m_state (main ex_env Map.empty) = Inr (sys_init ''/home/u'' Map.empty)"
proof -
  have p: "get_resource_path ex_env ''style.qss'' = ''/home/u/style.qss''"
    by (simp add: get_resource_path_def ex_env_def os_path_join_def)
  have "e_exists ex_env (get_resource_path ex_env ''style.qss'')"
    "e_read ex_env (get_resource_path ex_env ''style.qss'') = Inl (OSError ''[Errno 13] Permission denied'')"
    "e_cwd ex_env = ''/home/u''"
    by (simp_all add: p) (simp_all add: ex_env_def)
  moreover have "snd (restore (window_built ''/home/u'' Map.empty)) = None"
    by (simp add: restore_def setting_str_def setting_int_def)
  ultimately show ?thesis using main_style_error_caught [of ex_env _ Map.empty]
    by (simp add: exc_str_def)
qed

text \<open>C34. A stored resolution preference that int() rejects ends the program at start-up: when the stored folder is a string (or absent) and the stored max_res is a text on which int() raises, Main() raises that ValueError out of _restore, main ends with it and no event loop runs, whatever the style sheet.\<close>

theorem main_bad_max_res_raises:
  assumes "st ''out_dir'' = None \<or> (\<exists>d. st ''out_dir'' = Some (SStr d))"
    and "st ''max_res'' = Some (SStr t)" and "py_int t = Inl e"
  shows "m_state (main env st) = Inl e"
  using assms by (auto simp: main_def restore_def setting_str_def setting_int_def Let_def split: prod.split)

theorem main_bad_max_res_raises_witness:
  "m_state (main ex_env [''max_res'' \<mapsto> SStr ''abc'']) =
     Inl (ValueError (''invalid literal for int() with base 10: '' @ py_repr ''abc''))"
proof -
  have "py_strip ''abc'' = ''abc''" by (rule py_strip_unchanged) (simp_all add: is_space_def)
  then have "py_int ''abc'' = Inl (ValueError (''invalid literal for int() with base 10: '' @ py_repr ''abc''))"
    by (simp add: py_int_def parse_nat_def digit_groups_ok_def is_digit_def)
  then show ?thesis by (rule main_bad_max_res_raises [rotated 2]) simp_all
qed

end
