(* ===== verification/Spec2Isabelle.thy ===== *)
theory Spec2Isabelle
  imports Prelude FormatOptions HumanBytes Progress Worker Window System Entry
begin

text \<open>
  \<^bold>\<open>Bulk YouTube downloader (src/main.py): a verification development.\<close>

  \<^medskip>\<^bold>\<open>The program.\<close> One Python file with a PySide6 window \<^verbatim>\<open>Main\<close> and a
  worker thread \<^verbatim>\<open>DLWorker\<close>. The user adds URLs to a table (\<^verbatim>\<open>_add_url\<close>),
  chooses an output folder, a resolution cap and a container, and clicks Start
  (\<^verbatim>\<open>_start\<close>): the window builds a yt-dlp option dictionary
  (\<^verbatim>\<open>build_format\<close>) and starts a \<^verbatim>\<open>DLWorker\<close> on the table's URLs. The
  worker downloads them in order (\<^verbatim>\<open>DLWorker.run\<close>), reporting through the
  signal \<^verbatim>\<open>sig_update(i, payload)\<close> (progress hook, title probe, result) and
  finally \<^verbatim>\<open>sig_done\<close>; Qt's queued connections deliver them in order to the
  window's slots \<^verbatim>\<open>_on_update\<close> and \<^verbatim>\<open>_on_done\<close> on the window's thread. Stop
  (\<^verbatim>\<open>_stop\<close>) sets a flag the worker reads before each item. Preferences are
  read by \<^verbatim>\<open>_restore\<close> and written by \<^verbatim>\<open>closeEvent\<close>.

  \<^medskip>\<^bold>\<open>Theories and what they model.\<close>
  \<^item> \<open>Prelude\<close>: Python semantics shared by all parts: the exceptions the code
    raises or catches (\<open>py_exc\<close>, with \<open>exc_str\<close> for \<^verbatim>\<open>str(e)\<close>), truthiness
    and \<^verbatim>\<open>or\<close> on optional numbers, \<^verbatim>\<open>int()\<close> on a number (truncation) and on
    a string (\<open>py_int\<close>: whitespace stripped, a sign, digits with single
    underscores, otherwise \<^verbatim>\<open>ValueError\<close>), \<^verbatim>\<open>str()\<close> of an integer
    (\<open>int_str\<close>), \<^verbatim>\<open>str.strip\<close>, and POSIX \<^verbatim>\<open>pathlib\<close> paths (root,
    parts, \<^verbatim>\<open>str()\<close> and the join \<^verbatim>\<open>/\<close> as \<open>path_div\<close>). Numbers are \<open>rat\<close>: every value the code
    computes with is a byte count, a speed or a ratio of them, and the only
    float operations whose exactness matters (division by 1024) are exact.
  \<^item> \<open>FormatOptions\<close>: \<^verbatim>\<open>build_format\<close> (lines 26--28) and the option dictionary of
    \<^verbatim>\<open>_start\<close> (lines 169--187) as the record \<open>ydl_opts\<close> built by
    \<open>start_opts\<close> from the combo boxes' indices; the text of the current combo
    item and its conversion by \<^verbatim>\<open>int()\<close> are written out; the nested
    dictionaries are association lists and the output template is the
    \<^verbatim>\<open>pathlib\<close> join of the folder text with the file template.
  \<^item> \<open>HumanBytes\<close>: \<^verbatim>\<open>human_bytes\<close> (lines 30--34), its scaling loop as the
    terminating \<^theory_text>\<open>function\<close> \<open>hb_loop\<close> and \<^verbatim>\<open>f"{n:.1f}"\<close> as exact
    round-half-even to one decimal (\<open>fmt_1f\<close>).
  \<^item> \<open>Progress\<close>: the payload dictionaries of \<^verbatim>\<open>sig_update\<close> (record
    \<open>payload\<close>, one field per key, \<open>None\<close> for a missing key), the progress
    hook (lines 55--67, \<open>hook\<close>), the abstraction \<open>event_of\<close> of a payload to
    the event it reports, and the executable protocol checker
    \<open>item_protocol\<close> for the payloads of one item.
  \<^item> \<open>Worker\<close>: \<^verbatim>\<open>DLWorker\<close> (lines 36--85): its state (\<open>dlworker\<close>), one
    iteration (\<open>run_item\<close>), the loop (\<open>run_loop\<close>) and \<^verbatim>\<open>run\<close> (\<open>dl_run\<close>)
    as the list of signals emitted. yt-dlp is not modelled: it is an oracle
    \<open>library\<close> giving, for iteration \<open>i\<close> and its URL, what entering the
    context manager, \<^verbatim>\<open>extract_info\<close> and \<^verbatim>\<open>download\<close> return or raise, and
    the progress dictionaries \<^verbatim>\<open>download\<close> passes to the hook. The stop
    flag is an argument \<open>stopped\<close>: \<open>stopped i\<close> is the value the worker
    reads at the check of iteration \<open>i\<close>.
  \<^item> \<open>Window\<close>: \<^verbatim>\<open>Main\<close> (lines 87--226) as the record \<open>window\<close>: the table
    (its column count and rows: URL, title, date, progress bar, status cell),
    the inputs, the worker and whether its thread runs, the buttons and the
    \<^verbatim>\<open>QSettings\<close> store; one definition per method (\<open>add_url\<close>,
    \<open>click_add\<close>, \<open>start\<close>, \<open>stop\<close>, \<open>on_update\<close>, \<open>on_done\<close>, \<open>restore\<close>,
    \<open>close_event\<close>, \<open>choose_outdir\<close>; \<open>start\<close> takes what
    \<^verbatim>\<open>outdir.mkdir\<close> raises as an oracle \<open>mk\<close>), and \<open>apply_edit\<close> for what the user
    types or selects in the input widgets. The Qt behaviour the methods rely on is written out: a
    \<^verbatim>\<open>QTableWidget(0, 4)\<close> has 4 columns whatever header labels it is given;
    \<^verbatim>\<open>setItem\<close> on a column that does not exist does nothing and
    \<^verbatim>\<open>item\<close> there returns \<^verbatim>\<open>None\<close>; \<^verbatim>\<open>QProgressBar.setValue\<close> ignores
    a value outside 0..100; \<^verbatim>\<open>setCurrentIndex\<close> with an invalid index leaves
    the combo box with index -1 and text "". An exception raised in a slot is
    returned with the new window (PySide prints it and the event loop goes on).
  \<^item> \<open>System\<close>: the running program. \<open>sys\<close> is the window, the worker
    thread's position in \<^verbatim>\<open>run\<close>, the queue of signals not yet delivered and
    the signals of the current run; \<open>sys_step\<close> interleaves user actions,
    deliveries and worker steps; \<open>reachable\<close> are the states reachable from
    the window built and successfully restored. \<open>sys_auto\<close> are the steps
    the program takes with no user action: the worker thread's own steps
    (\<open>worker_step\<close>: the stop check with one iteration or leaving the loop),
    deliveries and the thread's end.
  \<^item> \<open>Entry\<close>: the module's top level and \<^verbatim>\<open>main\<close>: the guarded import of
    yt-dlp (lines 8--12; its handler builds a message box before any
    \<^verbatim>\<open>QApplication\<close> exists, on which Qt aborts the process),
    \<^verbatim>\<open>has_ffmpeg\<close> and the FFmpeg warning of
    \<^verbatim>\<open>_start\<close>, \<^verbatim>\<open>get_resource_path\<close> with POSIX \<^verbatim>\<open>os.path.join\<close>,
    and \<^verbatim>\<open>main\<close> (lines 228--241): the style sheet it loads or the error it
    prints, then \<^verbatim>\<open>Main()\<close>: the exception of \<^verbatim>\<open>_restore\<close>, which ends the
    process, or the initial state \<open>sys_init\<close> of the event loop. The
    operating system is an oracle \<open>os_env\<close>.
  \<^item> This theory: a concrete run used by the witnesses, and the properties
    of the running program, which span all components.

  \<^medskip>\<^bold>\<open>What is proved.\<close>
  \<^item> Worker (C1--C8): each started item gets exactly one terminal payload,
    last; the payloads of each item follow the protocol (Starting, then title
    and progress, then one terminal); signals are emitted in item order and
    \<^verbatim>\<open>sig_done\<close> last; a stop at iteration \<open>k\<close> emits exactly the first
    \<open>k\<close> items; the messages of the two error branches; a failing title probe
    changes nothing but the title; the return code of \<^verbatim>\<open>download\<close> is
    ignored; the Downloading percentages of an item are the library's,
    unchanged, so they can decrease (C13).
  \<^item> Progress (C9--C12): the percentage is an integer between 0 and 100 when
    the downloaded count does not exceed the total, is monotone in it, is 0
    with no known total, and exceeds 100 whenever the count is at least 1 %
    past the estimate.
  \<^item> human_bytes (C14--C16): the unit chosen and the printed value, the
    accuracy of the formatting, and the "1024.0" printed in the last twentieth
    below every unit boundary.
  \<^item> FormatOptions (C17--C21): the format string read back (a non-zero cap
    gives exactly two height filters, both the cap, \<open>height_caps\<close>), a
    height filter exactly for a truthy cap (zero is no cap), the option bundle for every valid choice (the template is the
    folder, a slash and the name for a normalized folder text, and the bare
    name, i.e. the working directory, for an empty one), and the combo-box
    round trip between \<^verbatim>\<open>_restore\<close> and
    \<^verbatim>\<open>_start\<close>, with the \<^verbatim>\<open>ValueError\<close> an invalid stored index causes.
  \<^item> Window (C22, C23, C37): the preference round trip through
    \<^verbatim>\<open>closeEvent\<close> and \<^verbatim>\<open>_restore\<close>, the \<^verbatim>\<open>AttributeError\<close>
    \<^verbatim>\<open>_on_update\<close> raises for a status, and that a started worker writes
    into the folder the Browse dialog returned (C37).
  \<^item> Preferences across runs (C24): from every reachable state, closing the
    window and running \<^verbatim>\<open>main\<close> again raises nothing and restores the folder and both combo
    indices; it rests on the invariant \<open>inv_combos\<close> (the indices stay where
    Qt can put them), proved by rule induction like \<open>sys_inv\<close>.
  \<^item> System (C25--C32): the invariant \<open>sys_inv\<close> (threads, buttons, rows, the
    run's signals, the table) holds in every reachable state, by rule
    induction; from it: one run at a time, every queued row index is a row,
    bars stay in 0..100, no status cell is ever shown, the run's signals
    refine the sequential \<open>dl_run\<close> (C29), the controls during a run, that a
    stop ends the run, and that every run can return to idle with Start
    enabled by the program's own steps, with no user action (C32, by
    induction on the items left and the queue's length); the worker loop
    terminates under every interleaving (C33: a worker step is always
    possible in the loop, each decreases the checks left,
    \<open>checks_left\<close>, and no other step changes them).
  \<^item> Entry (C34--C36): a malformed stored resolution preference ends the
    program at start-up with \<^verbatim>\<open>ValueError\<close>; where resources are looked up;
    an unreadable style sheet is reported and does not change what
    \<^verbatim>\<open>Main()\<close> does.

  \<^medskip>\<^bold>\<open>Bounds and fuel.\<close> No fuel is used. \<open>hb_loop\<close> terminates by the
  measure \<open>4 - i\<close>; \<open>height_caps\<close> by the length of the text; \<open>run_loop\<close>
  is structural on the rows; the system's
  reachability is an inductive relation, with no bound on the number of steps.

  \<^medskip>\<^bold>\<open>Not modelled.\<close> The layout of \<^verbatim>\<open>_build_ui\<close> and
  \<^verbatim>\<open>_add_url\<close>: the fixed window size, placeholder text, vertical header
  visibility and resize modes. They change no state the program reads; the
  table's column count and its header labels (\<open>header_labels\<close>: Qt drops
  the fifth, "Status") are modelled. Closing the window while a worker runs ends the
  process; the system's steps stop before it, and \<open>close_event\<close> with \<open>restore\<close> is covered
  by C22 and, from every reachable state, by C24. The message boxes are outputs with no effect on the state;
  Qt's abort at the import guard is the outcome \<open>QtAbort\<close>, with the fatal message Qt prints. Paths
  are POSIX paths; the Windows flavour of \<^verbatim>\<open>pathlib\<close> (drives, backslashes)
  is not modelled. The organisation and application names given to
  \<^verbatim>\<open>QSettings\<close> (lines 14--15) only select the store, which is one map. In the
  running program the library oracle is one function of the iteration index
  and the URL for every run, not a fresh one per Start; an exception raised by
  the \<^verbatim>\<open>with\<close> block's \<^verbatim>\<open>__exit__\<close> after \<^verbatim>\<open>Done\<close> is not modelled; the
  hook's \<^verbatim>\<open>got*100/total\<close> is computed exactly, which differs from the float
  value only for byte counts near \<open>10^14\<close>. yt-dlp
  and FFmpeg are libraries the program calls; they are the oracles described
  above.
\<close>

section \<open>A concrete run\<close>

text \<open>The window restored from empty preferences in \<^verbatim>\<open>/home/u\<close>; a URL is
  typed and added, Start is clicked, the worker runs item 0 with the library
  \<open>ex_lib\<close> and leaves the loop; or Stop is clicked before the first item.\<close>

definition ex_s0 :: sys where "ex_s0 = sys_init ''/home/u'' Map.empty"
definition ex_s1 :: sys where "ex_s1 = ex_s0\<lparr>win := (win ex_s0)\<lparr>url_input := '' https://youtu.be/a ''\<rparr>\<rparr>"
definition ex_s2 :: sys where "ex_s2 = ex_s1\<lparr>win := click_add ''11/09/2026 10:00:00 AM'' (win ex_s1)\<rparr>"
definition ex_s3 :: sys where "ex_s3 = ex_s2\<lparr>win := fst (start (\<lambda>_. None) (win ex_s2)), pc := AtCheck 0, run_log := []\<rparr>"
definition ex_s4 :: sys where
  "ex_s4 = ex_s3\<lparr>pc := AtCheck (Suc 0), queue := queue ex_s3 @ run_item ex_lib 0 (cur_rows ex_s3 ! 0),
                 run_log := run_log ex_s3 @ run_item ex_lib 0 (cur_rows ex_s3 ! 0)\<rparr>"
definition ex_s5 :: sys where
  "ex_s5 = ex_s4\<lparr>pc := Exited, queue := queue ex_s4 @ [Finished], run_log := run_log ex_s4 @ [Finished]\<rparr>"
definition ex_s3s :: sys where "ex_s3s = ex_s3\<lparr>win := stop (win ex_s3)\<rparr>"
definition ex_s3x :: sys where
  "ex_s3x = ex_s3s\<lparr>pc := Exited, queue := queue ex_s3s @ [Finished], run_log := run_log ex_s3s @ [Finished]\<rparr>"

section \<open>Lemmas on the concrete run\<close>

lemma ex_win2:
  "win ex_s2 = (window_built ''/home/u'' Map.empty)\<lparr>url_input := [],
      tbl_rows := [\<lparr>r_url = ''https://youtu.be/a'', r_title = [], r_date = ''11/09/2026 10:00:00 AM'',
                    r_bar = 0, r_status = None\<rparr>]\<rparr>"
  by (simp add: ex_s2_def ex_s1_def ex_s0_def sys_init_def restore_def window_built_def setting_str_def
      setting_int_def combo_set_def max_res_items_def format_items_def click_add_def add_url_def
      py_strip_def is_space_def new_cell_def status_col_def)

lemma ex_launches: "btn_start_enabled (win ex_s2) \<and> launches (\<lambda>_. None) (win ex_s2)"
  by (simp add: ex_win2 launches_def window_built_def start_opts_def max_res_value_def)

lemma ex_reach2: "reachable ex_lib ''/home/u'' Map.empty ex_s2"
proof -
  have r0: "reachable ex_lib ''/home/u'' Map.empty ex_s0"
    unfolding ex_s0_def by (rule reachable.init) (simp add: restore_def setting_str_def setting_int_def)
  have r1: "reachable ex_lib ''/home/u'' Map.empty ex_s1"
    unfolding ex_s1_def using reachable.step [OF r0 sys_step.edit [of ex_lib ex_s0 "TypeUrl '' https://youtu.be/a ''"]]
    by (simp add: apply_edit_def)
  show ?thesis
    unfolding ex_s2_def by (rule reachable.step [OF r1 sys_step.add])
qed

lemma ex_step3: "sys_step ex_lib ex_s2 ex_s3"
  unfolding ex_s3_def using ex_launches by (intro sys_step.start_run) simp_all

lemma ex_reach3: "reachable ex_lib ''/home/u'' Map.empty ex_s3"
  by (rule reachable.step [OF ex_reach2 ex_step3])

lemma ex_win3:
  "cur_rows ex_s3 = [''https://youtu.be/a''] \<and> \<not> cur_stop ex_s3 \<and> pc ex_s3 = AtCheck 0 \<and>
   btn_stop_enabled (win ex_s3) \<and> worker_running (win ex_s3) \<and> queue ex_s3 = [] \<and> cur_stop ex_s3s"
proof -
  obtain opts where "fst (start (\<lambda>_. None) (win ex_s2)) = (win ex_s2)\<lparr>worker := Some (dlworker_init (map r_url (tbl_rows (win ex_s2))) opts),
                     btn_start_enabled := False, btn_stop_enabled := True, worker_running := True\<rparr>"
    using start_launch ex_launches by blast
  then show ?thesis
    by (simp add: ex_s3s_def ex_s3_def cur_rows_def cur_stop_def ex_win2 dlworker_init_def stop_def dlworker_stop_def)
     (simp add: ex_s2_def ex_s1_def ex_s0_def sys_init_def)
qed


lemma ex_reach5: "reachable ex_lib ''/home/u'' Map.empty ex_s5"
proof -
  have r4: "reachable ex_lib ''/home/u'' Map.empty ex_s4"
    unfolding ex_s4_def using ex_win3 by (intro reachable.step [OF ex_reach3] sys_step_iteration [of ex_s3 0]) simp_all
  have "pc ex_s4 = AtCheck 1" "length (cur_rows ex_s4) \<le> 1"
    using ex_win3 by (simp_all add: ex_s4_def cur_rows_def)
  then show ?thesis
    unfolding ex_s5_def by (intro reachable.step [OF r4] sys_step_leave_loop [of ex_s4 1]) simp_all
qed

lemma ex_reach3s: "reachable ex_lib ''/home/u'' Map.empty ex_s3s"
  unfolding ex_s3s_def using ex_win3 by (intro reachable.step [OF ex_reach3] sys_step.stop_click) simp

lemma ex_step3x: "sys_step ex_lib ex_s3s ex_s3x"
  unfolding ex_s3x_def using ex_win3 by (intro sys_step_leave_loop [of ex_s3s 0]) (simp_all add: ex_s3s_def)

section \<open>Properties of the running program\<close>

text \<open>C25. A run starts only from the idle state: a step that puts the worker at the check of iteration 0 from any other position is a click on Start that launched a worker while no thread was running and no signal was pending; the new thread is running and its rows are the URLs of the table at that moment.\<close>

theorem single_active_run:
  assumes "reachable lib cwd st s" and "sys_step lib s s'" and "pc s' = AtCheck 0" and "pc s \<noteq> AtCheck 0"
  shows "pc s = Idle \<and> queue s = [] \<and> worker_running (win s') \<and> cur_rows s' = map r_url (tbl_rows (win s))"
  using assms(2,3,4)
proof (cases rule: sys_step_cases)
  case start_run
  have "pc s = Idle" using launches_idle [OF start_run(3) reach_inv(1) [OF assms(1)]] by simp
  moreover have "queue s = []" using reach_inv(2) [OF assms(1)] start_run(2) by (simp add: inv_buttons_def)
  moreover have "cur_rows s' = map r_url (tbl_rows (win s))"
    using start_run(1,3) by (simp add: cur_rows_start_run)
  moreover have "worker_running (win s')"
    using start_launch [OF start_run(3)] start_run(1) by auto
  ultimately show ?thesis by simp
qed auto

theorem single_active_run_witness:
  "pc ex_s2 = Idle \<and> queue ex_s2 = [] \<and> worker_running (win ex_s3) \<and> cur_rows ex_s3 = map r_url (tbl_rows (win ex_s2))"
  using single_active_run [OF ex_reach2 ex_step3] ex_win3
  by (simp add: ex_s2_def ex_s1_def ex_s0_def sys_init_def)

text \<open>C26. Every row index carried by a pending sig_update is a row of the table, so _on_update never takes its early return in a run of the program.\<close>

theorem queued_updates_have_rows:
  assumes "reachable lib cwd st s" and "k \<in> set (update_indices (queue s))"
  shows "k < length (tbl_rows (win s))"
proof -
  have rows: "inv_rows s" by (rule reach_inv(3) [OF assms(1)])
  then obtain pre where "run_log s = pre @ queue s" by (auto simp: inv_rows_def suffix_def)
  with assms(2) have "k \<in> set (update_indices (run_log s))" by simp
  with rows show ?thesis by (auto simp: inv_rows_def)
qed

theorem queued_updates_have_rows_witness: "0 < length (tbl_rows (win ex_s4))"
proof -
  have r4: "reachable ex_lib ''/home/u'' Map.empty ex_s4"
    unfolding ex_s4_def using ex_win3 by (intro reachable.step [OF ex_reach3] sys_step_iteration [of ex_s3 0]) simp_all
  have "0 \<in> set (update_indices (queue ex_s4))"
    using ex_win3 by (simp add: ex_s4_def run_item_def Let_def update_indices_def map_filter_simps)
  then show ?thesis using queued_updates_have_rows [OF r4] by blast
qed

text \<open>C27. In every reachable state every progress bar holds a value between 0 and 100.\<close>

theorem bars_in_range:
  "reachable lib cwd st s \<Longrightarrow> rv \<in> set (tbl_rows (win s)) \<Longrightarrow> 0 \<le> r_bar rv \<and> r_bar rv \<le> 100"
  using reach_win_rows by blast

theorem bars_in_range_witness:
  "0 \<le> r_bar (hd (tbl_rows (win ex_s2))) \<and> r_bar (hd (tbl_rows (win ex_s2))) \<le> 100"
  by (rule bars_in_range [OF ex_reach2]) (simp add: ex_win2)

text \<open>C28. In every reachable state no row of the table has a status cell: the table is built with 4 columns, so the "Queued", status and error texts of lines 150, 210 and 211 never appear.\<close>

theorem status_never_shown:
  "reachable lib cwd st s \<Longrightarrow> rv \<in> set (tbl_rows (win s)) \<Longrightarrow> r_status rv = None"
  using reach_win_rows by blast

theorem status_never_shown_witness: "r_status (hd (tbl_rows (win ex_s2))) = None"
  by (rule status_never_shown [OF ex_reach2]) (simp add: ex_win2)

text \<open>C29. Refinement: once the worker thread has left its loop, the signals the run emitted are exactly those of the sequential model dl_run of DLWorker.run on the worker the window started, with the stop flag first read as set at some iteration k.\<close>

theorem worker_refines_dl_run:
  assumes "reachable lib cwd st s" and "pc s = Exited"
  shows "\<exists>wk k. worker (win s) = Some wk \<and> run_log s = dl_run lib (\<lambda>j. k \<le> j) wk"
proof -
  obtain wk where wk: "worker (win s) = Some wk"
    using reach_inv(1) [OF assms(1)] assms(2) by (auto simp: inv_threads_def)
  obtain k where "run_log s = run_loop lib (\<lambda>_. False) 0 (take k (w_rows wk)) @ [Finished]"
    using reach_inv(4) [OF assms(1)] assms(2) wk by (auto simp: inv_log_def cur_rows_def)
  then have "run_log s = dl_run lib (\<lambda>j. k \<le> j) wk"
    by (simp add: dl_run_def run_loop_stop_from)
  with wk show ?thesis by blast
qed

theorem worker_refines_dl_run_witness:
  "\<exists>wk k. worker (win ex_s5) = Some wk \<and> run_log ex_s5 = dl_run ex_lib (\<lambda>j. k \<le> j) wk"
  by (rule worker_refines_dl_run [OF ex_reach5]) (simp add: ex_s5_def)

text \<open>C30. While the worker thread is in its loop, Stop is enabled, Start is disabled, the thread is running and sig_done is not pending.\<close>

theorem run_controls:
  assumes "reachable lib cwd st s" and "pc s = AtCheck i"
  shows "btn_stop_enabled (win s) \<and> \<not> btn_start_enabled (win s) \<and> worker_running (win s) \<and> Finished \<notin> set (queue s)"
  using reach_inv(1,2) [OF assms(1)] assms(2) by (auto simp: inv_threads_def inv_buttons_def)

theorem run_controls_witness:
  "btn_stop_enabled (win ex_s3) \<and> \<not> btn_start_enabled (win ex_s3) \<and> worker_running (win ex_s3) \<and>
   Finished \<notin> set (queue ex_s3)"
  using run_controls [OF ex_reach3] ex_win3 by blast

text \<open>C31. Once Stop has set the flag of the running worker, no further item is downloaded: every next step of the program either leaves the signals of the run unchanged or appends only sig_done.\<close>

theorem stop_ends_run:
  assumes "reachable lib cwd st s" and "pc s \<noteq> Idle" and "cur_stop s" and "sys_step lib s s'"
  shows "run_log s' = run_log s \<or> run_log s' = run_log s @ [Finished]"
  using assms(4)
proof (cases rule: sys_step_cases)
  case start_run
  then show ?thesis using launches_idle [OF start_run(3) reach_inv(1) [OF assms(1)]] assms(2) by simp
qed (use assms(3) in auto)

theorem stop_ends_run_witness:
  "run_log ex_s3x = run_log ex_s3s \<or> run_log ex_s3x = run_log ex_s3s @ [Finished]"
  using stop_ends_run [OF ex_reach3s _ _ ex_step3x] ex_win3 by (simp add: ex_s3s_def)

text \<open>C32. Liveness of a run: from any point of a run the program's own steps (the worker thread's steps, the delivery of pending signals to their slots and the end of the thread), with no action of the user, bring it back to an idle state with no pending signal, the thread ended and Start enabled.\<close>

theorem run_returns_to_idle:
  assumes "reachable lib cwd st s" and "pc s \<noteq> Idle"
  shows "\<exists>s'. (sys_auto lib)\<^sup>*\<^sup>* s s' \<and> pc s' = Idle \<and> queue s' = [] \<and>
              btn_start_enabled (win s') \<and> \<not> worker_running (win s')"
proof -
  obtain s1 where s1: "(sys_auto lib)\<^sup>*\<^sup>* s s1" "pc s1 = Exited"
  proof (cases "pc s")
    case (AtCheck i)
    then show ?thesis using loop_exits worker_steps_auto that by blast
  qed (use assms(2) that in auto)
  obtain s2 where s2: "(sys_auto lib)\<^sup>*\<^sup>* s1 s2" "queue s2 = []" "pc s2 = Exited"
    using drain_queue [of lib s1] s1(2) by auto
  define s3 where "s3 = s2\<lparr>win := thread_finished (win s2), pc := Idle\<rparr>"
  have "sys_auto lib s2 s3" unfolding s3_def using s2(3) by (rule sys_auto.thread_end)
  with s1(1) s2(1) have steps: "(sys_auto lib)\<^sup>*\<^sup>* s s3" by (meson rtranclp_trans rtranclp.rtrancl_into_rtrancl)
  then have r3: "reachable lib cwd st s3" using assms(1) by (rule reachable_rtranclp [OF auto_steps_sys])
  have "btn_start_enabled (win s3)" using reachable_inv_done [OF r3] s2(2) by (simp add: inv_done_def s3_def)
  moreover have "\<not> worker_running (win s3)" using reach_inv(1) [OF r3] by (simp add: inv_threads_def s3_def)
  ultimately show ?thesis using steps s2(2) by (auto simp: s3_def)
qed

theorem run_returns_to_idle_witness:
  "\<exists>s'. (sys_auto ex_lib)\<^sup>*\<^sup>* ex_s3 s' \<and> pc s' = Idle \<and> queue s' = [] \<and>
        btn_start_enabled (win s') \<and> \<not> worker_running (win s')"
  using run_returns_to_idle [OF ex_reach3] ex_win3 by simp

text \<open>C33. Termination of the worker loop under any interleaving: while the worker thread is at the check of iteration i, a step of its own (an iteration, or leaving the loop) is always possible and each such step strictly decreases the number of stop checks left, length rows - i + 1, and every other step of the program leaves the worker's position and that number unchanged; so the loop ends after at most length rows + 1 of its own steps whatever the window's thread and the user do.\<close>

theorem worker_loop_terminates:
  assumes "reachable lib cwd st s" and "pc s = AtCheck i"
  shows "(\<exists>s'. worker_step lib s s') \<and>
         (\<forall>s'. worker_step lib s s' \<longrightarrow> checks_left s' < checks_left s) \<and>
         (\<forall>s'. sys_step lib s s' \<and> \<not> worker_step lib s s' \<longrightarrow> pc s' = pc s \<and> checks_left s' = checks_left s)"
proof -
  have ex: "\<exists>s'. worker_step lib s s'"
  proof (cases "i < length (cur_rows s) \<and> \<not> cur_stop s")
    case True
    then show ?thesis using assms(2) by (blast intro: worker_step.iteration)
  next
    case False
    then have "length (cur_rows s) \<le> i \<or> cur_stop s" by auto
    then show ?thesis using assms(2) by (blast intro: worker_step.leave_loop)
  qed
  have dec: "checks_left s' < checks_left s" if "worker_step lib s s'" for s'
    using that by cases (use assms(2) in \<open>auto simp: checks_left_def cur_rows_def\<close>)
  have other: "pc s' = pc s \<and> checks_left s' = checks_left s"
    if step: "sys_step lib s s' \<and> \<not> worker_step lib s s'" for s'
  proof -
    from step have "sys_step lib s s'" by simp
    then show ?thesis
    proof (cases rule: sys_step_cases)
      case start_run
      then show ?thesis using launches_idle [OF start_run(3) reach_inv(1) [OF assms(1)]] assms(2) by simp
    next
      case iteration
      then show ?thesis using step by (blast intro: worker_step.iteration)
    next
      case leave_loop
      then show ?thesis using step by (blast intro: worker_step.leave_loop)
    next
      case thread_end
      then show ?thesis using assms(2) by simp
    qed (simp_all add: assms(2) checks_left_def cur_rows_same_worker start_noop_eq)
  qed
  show ?thesis using ex dec other by blast
qed

theorem worker_loop_terminates_witness: "checks_left ex_s4 < checks_left ex_s3"
proof -
  have "worker_step ex_lib ex_s3 ex_s4"
    unfolding ex_s4_def using ex_win3 by (intro worker_step.iteration [of ex_s3 0]) simp_all
  then show ?thesis using worker_loop_terminates [OF ex_reach3] ex_win3 by blast
qed

text \<open>C24. Preferences survive a restart: in every reachable state, closing the window (closeEvent) and running main again with the stored preferences gives a window whose output folder and combo-box indices are those of the closed window, every other field as freshly built.\<close>

theorem preferences_survive_restart:
  assumes "reachable lib cwd st s"
  shows "\<exists>s0. m_state (main env (store (close_event (win s)))) = Inr s0 \<and>
           win s0 = (window_built (e_cwd env) (store (close_event (win s))))\<lparr>out_dir := out_dir (win s),
              max_res_idx := max_res_idx (win s), fmt_idx := fmt_idx (win s)\<rparr>"
proof -
  have "inv_combos s" using assms by (rule reachable_inv_combos)
  then have "restore (window_built (e_cwd env) (store (close_event (win s)))) =
           ((window_built (e_cwd env) (store (close_event (win s))))\<lparr>out_dir := out_dir (win s),
              max_res_idx := max_res_idx (win s), fmt_idx := fmt_idx (win s)\<rparr>, None)"
    unfolding inv_combos_def by (intro restore_after_close) simp_all
  then show ?thesis by (simp add: main_def sys_init_def split: prod.split)
qed

theorem preferences_survive_restart_witness:
  "\<exists>s0. m_state (main ex_env (store (close_event (win ex_s2)))) = Inr s0 \<and>
     win s0 = (window_built ''/home/u'' (store (close_event (win ex_s2))))\<lparr>out_dir := ''/home/u/downloads'',
        max_res_idx := 0, fmt_idx := 0\<rparr>"
proof -
  have "e_cwd ex_env = ''/home/u''" by (simp add: ex_env_def)
  with preferences_survive_restart [OF ex_reach2, of ex_env] show ?thesis
    by (simp add: ex_win2 window_built_def path_eval)
qed

end
